theory Spec2Isabelle
  imports Complex_Main
begin

section \<open>TRACE shop agent: forecasting and the recommendation chain\<close>

text \<open>
  A shallow embedding of the shop agent's API server (the Express application with
  \<^verbatim>\<open>holtForecast\<close>, \<^verbatim>\<open>forecastDemand\<close>, \<^verbatim>\<open>mergeSearchResults\<close>,
  \<^verbatim>\<open>recommendFromWebShop\<close>, \<^verbatim>\<open>buildUnfoundItems\<close> and the
  \<^verbatim>\<open>POST /api/recommend\<close> handler) and of the payment table of
  \<^verbatim>\<open>frontend/src/App.jsx\<close>.

  Conventions of the embedding.
  \<^item> A JavaScript number is a \<^typ>\<open>real\<close>. In the demand estimator every product is
    rounded to an IEEE double (\<open>double_round\<close> below), because its ceilings depend on the
    rounding; elsewhere arithmetic is exact. The infinities are not modelled.
    \<^verbatim>\<open>NaN\<close> appears only where the source can produce it from a parse, as
    \<^term>\<open>None\<close> of a \<^typ>\<open>real option\<close>.
  \<^item> A JavaScript string is a \<^typ>\<open>string\<close>; an optional field
    (\<^verbatim>\<open>undefined\<close>, \<^verbatim>\<open>null\<close> or absent) is an \<^typ>\<open>'a option\<close>.
  \<^item> The external capabilities (the language model calls, the catalog search, the web
    search) are parameters: the model is given what each call returned.
\<close>

subsection \<open>Demand estimator (\<^verbatim>\<open>forecastDemand\<close>)\<close>

record ParsedItem =
  name :: string
  category :: string
  daily_usage :: real
  unit_label :: string
  context_note :: string

record ForecastedItem = ParsedItem +
  horizon_days :: real
  base_demand :: int
  safety_stock :: int
  forecasted_units :: int

text \<open>
  IEEE 754 binary64, round to nearest, ties to even. \<open>rne\<close> rounds a real to an integer;
  the exponent of a number is that of its binade, at least \<open>-1022\<close> (below it the doubles
  are subnormal and equally spaced); a double is an integer multiple of
  \<open>2 ^ (exponent - 52)\<close>. Overflow to infinity is not modelled.
\<close>

definition rne :: "real \<Rightarrow> int" where
  "rne x =
     (let f = \<lfloor>x\<rfloor>; r = x - of_int f
      in if r < 1 / 2 then f else if r > 1 / 2 then f + 1 else if even f then f else f + 1)"

definition double_exponent :: "real \<Rightarrow> int" where
  "double_exponent x = max (- 1022) \<lfloor>log 2 \<bar>x\<bar>\<rfloor>"

definition double_round :: "real \<Rightarrow> real" where
  "double_round x =
     (if x = 0 then 0
      else
        (let u = 2 powr (of_int (double_exponent x) - 52)
         in of_int (rne (x / u)) * u))"

text \<open>
  \<^verbatim>\<open>const SAFETY_STOCK_MULTIPLIER = 1.20\<close>: the literal denotes the double nearest to
  \<open>1.2\<close>, which is \<open>5404319552844595 / 2^52\<close>.
\<close>

definition SAFETY_STOCK_MULTIPLIER :: real where
  "SAFETY_STOCK_MULTIPLIER = double_round 1.20"

text \<open>
  The body of the arrow function mapped over \<^verbatim>\<open>parsedItems\<close>. Every \<^verbatim>\<open>*\<close> and the
  \<^verbatim>\<open>-\<close> of the source is the exact operation followed by \<open>double_round\<close>.
\<close>

definition forecastItem :: "real \<Rightarrow> ParsedItem \<Rightarrow> ForecastedItem" where
  "forecastItem horizonDays item =
     (let baseDemand = double_round (daily_usage item * horizonDays);
          forecastedUnits = \<lceil>double_round (baseDemand * SAFETY_STOCK_MULTIPLIER)\<rceil>
      in ParsedItem.extend item
           \<lparr> horizon_days = horizonDays,
             base_demand = \<lceil>baseDemand\<rceil>,
             safety_stock =
               \<lceil>double_round (baseDemand * double_round (SAFETY_STOCK_MULTIPLIER - 1))\<rceil>,
             forecasted_units = forecastedUnits \<rparr>)"

definition forecastDemand :: "ParsedItem list \<Rightarrow> real \<Rightarrow> ForecastedItem list" where
  "forecastDemand parsedItems horizonDays = map (forecastItem horizonDays) parsedItems"

subsection \<open>Forecaster (\<^verbatim>\<open>holtForecast\<close> and the reorder projection)\<close>


text \<open>
  \<^verbatim>\<open>Math.round\<close> rounds to the nearest integer, a tie towards \<open>+\<infinity>\<close>. Its result is a
  JavaScript number again, so it stays a \<^typ>\<open>real\<close>.
\<close>

definition Math_round :: "real \<Rightarrow> real" where
  "Math_round x = of_int \<lfloor>x + 1 / 2\<rfloor>"








text \<open>
  \<^verbatim>\<open>Array.prototype.findIndex\<close>: the index of the first element that satisfies the
  predicate, \<open>-1\<close> when there is none.
\<close>

fun findIndex_from :: "('a \<Rightarrow> bool) \<Rightarrow> 'a list \<Rightarrow> int \<Rightarrow> int" where
  "findIndex_from p [] i = - 1"
| "findIndex_from p (x # xs) i = (if p x then i else findIndex_from p xs (i + 1))"

definition findIndex :: "('a \<Rightarrow> bool) \<Rightarrow> 'a list \<Rightarrow> int" where
  "findIndex p xs = findIndex_from p xs 0"

text \<open>
  The reorder projection of the \<^verbatim>\<open>GET /api/dashboard/forecast\<close> handler:
  \<^verbatim>\<open>daysUntilReorder\<close> starts as \<^verbatim>\<open>null\<close> and is assigned only under the guard.
\<close>

definition daysUntilReorder :: "real \<Rightarrow> real \<Rightarrow> real list \<Rightarrow> int option" where
  "daysUntilReorder reorderPoint trend_value forecast_values =
     (if reorderPoint > 0 \<and> trend_value < 0 then
        (let idx = findIndex (\<lambda>f. f \<le> reorderPoint) forecast_values
         in if idx \<ge> 0 then Some (idx + 1) else None)
      else None)"

subsection \<open>Search dispatch and merge (\<^verbatim>\<open>mergeSearchResults\<close>, the search loop)\<close>

text \<open>
  A search result as the catalog returns it. A field that the JSON may lack is an option.
  A string is \<^emph>\<open>truthy\<close> when it is present and not empty.
\<close>

record SearchResult =
  asin :: "string option"
  product_name :: string
  price :: "real option"
  result_category :: "string option"
  link :: "string option"

definition truthy :: "string option \<Rightarrow> bool" where
  "truthy s = (case s of None \<Rightarrow> False | Some t \<Rightarrow> t \<noteq> [])"

text \<open>
  A JavaScript \<^verbatim>\<open>Map\<close> keeps its entries in insertion order: a list of key-value pairs
  with distinct keys. \<^verbatim>\<open>set\<close> on a present key keeps the key's position.
\<close>

type_synonym ('k, 'v) js_map = "('k \<times> 'v) list"

definition Map_has :: "('k, 'v) js_map \<Rightarrow> 'k \<Rightarrow> bool" where
  "Map_has m k = (k \<in> set (map fst m))"

definition Map_set :: "('k, 'v) js_map \<Rightarrow> 'k \<Rightarrow> 'v \<Rightarrow> ('k, 'v) js_map" where
  "Map_set m k v =
     (if Map_has m k then map (\<lambda>kv. if fst kv = k then (k, v) else kv) m else m @ [(k, v)])"

definition Map_values :: "('k, 'v) js_map \<Rightarrow> 'v list" where
  "Map_values m = map snd m"

fun merge_loop :: "(string, SearchResult) js_map \<Rightarrow> SearchResult list \<Rightarrow> (string, SearchResult) js_map" where
  "merge_loop byAsin [] = byAsin"
| "merge_loop byAsin (r # rs) =
     merge_loop
       (case asin r of
          None \<Rightarrow> byAsin
        | Some a \<Rightarrow> if a \<noteq> [] \<and> \<not> Map_has byAsin a then Map_set byAsin a r else byAsin)
       rs"

definition mergeSearchResults :: "SearchResult list \<Rightarrow> SearchResult list" where
  "mergeSearchResults allResults = Map_values (merge_loop [] allResults)"

text \<open>
  The first occurrence of every key, in the order of the list (the specification's
  "deduplicate by product_id keeping first occurrence").
\<close>

fun first_occurrences :: "('a \<Rightarrow> 'k) \<Rightarrow> 'a list \<Rightarrow> 'a list" where
  "first_occurrences key [] = []"
| "first_occurrences key (x # xs) = x # filter (\<lambda>y. key y \<noteq> key x) (first_occurrences key xs)"

text \<open>
  What \<^verbatim>\<open>callWebShopSearch\<close> returned: \<^term>\<open>None\<close> for \<^verbatim>\<open>null\<close> (the request failed or
  the status was not ok), otherwise the response body, whose \<^verbatim>\<open>results\<close> may be absent.
\<close>

record SearchResponse =
  results :: "SearchResult list option"

text \<open>
  The state of the search loop: the three arrays of the handler, and the queries sent to
  the catalog so far (every \<^verbatim>\<open>await callWebShopSearch(q)\<close> adds one).
\<close>

record Dispatch =
  allResults :: "SearchResult list"
  usedQueries :: "string list"
  unfoundQueries :: "string list"
  calls :: "string list"

text \<open>
  One iteration of \<^verbatim>\<open>for (const q of searchQueries)\<close>, given what the call returned.
\<close>

definition dispatch_step :: "Dispatch \<Rightarrow> string \<Rightarrow> SearchResponse option \<Rightarrow> Dispatch" where
  "dispatch_step d q data =
     (let d = d \<lparr> calls := calls d @ [q] \<rparr> in
      case data of
        Some body \<Rightarrow>
          (let n = (case results body of None \<Rightarrow> 0 | Some rs \<Rightarrow> length rs);
               d = d \<lparr> usedQueries := usedQueries d @ [q] \<rparr>
           in if n > 0 then d \<lparr> allResults := allResults d @ the (results body) \<rparr>
              else d \<lparr> unfoundQueries := unfoundQueries d @ [q] \<rparr>)
      | None \<Rightarrow> d \<lparr> unfoundQueries := unfoundQueries d @ [q] \<rparr>)"

text \<open>
  The catalog is a parameter: \<open>callWebShopSearch i q\<close> is what the \<open>i\<close>-th call of the
  request, made with query \<open>q\<close>, returned.
\<close>

fun dispatch_loop :: "(nat \<Rightarrow> string \<Rightarrow> SearchResponse option) \<Rightarrow> nat \<Rightarrow> Dispatch \<Rightarrow> string list \<Rightarrow> Dispatch" where
  "dispatch_loop callWebShopSearch i d [] = d"
| "dispatch_loop callWebShopSearch i d (q # qs) =
     dispatch_loop callWebShopSearch (Suc i) (dispatch_step d q (callWebShopSearch i q)) qs"

definition dispatch :: "(nat \<Rightarrow> string \<Rightarrow> SearchResponse option) \<Rightarrow> string list \<Rightarrow> Dispatch" where
  "dispatch callWebShopSearch searchQueries =
     dispatch_loop callWebShopSearch 0
       \<lparr> allResults = [], usedQueries = [], unfoundQueries = [], calls = [] \<rparr> searchQueries"

text \<open>
  The results a call contributes to the pool: none when it failed, when the body has no
  \<^verbatim>\<open>results\<close>, or when the list is empty.
\<close>

definition response_results :: "SearchResponse option \<Rightarrow> SearchResult list" where
  "response_results data =
     (case data of None \<Rightarrow> [] | Some body \<Rightarrow> (case results body of None \<Rightarrow> [] | Some rs \<Rightarrow> rs))"

subsection \<open>Query planner (\<^verbatim>\<open>callGrokParseItems\<close>, \<^verbatim>\<open>callGrokForSearchQueries\<close>, handler step 3)\<close>

text \<open>
  \<^verbatim>\<open>String.prototype.trim\<close> on the ASCII white space (space, tab, line feed, vertical
  tab, form feed, carriage return); the white space beyond ASCII is not modelled.
\<close>

definition is_space :: "char \<Rightarrow> bool" where
  "is_space c = (c \<in> set [CHR '' '', CHR 0x09, CHR 0x0A, CHR 0x0B, CHR 0x0C, CHR 0x0D])"

definition trim :: "string \<Rightarrow> string" where
  "trim s = rev (dropWhile is_space (rev (dropWhile is_space s)))"

text \<open>
  The item extraction. Its parameter is the parsed answer of the language model:
  \<^term>\<open>None\<close> when the request failed or the answer held no JSON, otherwise the
  \<^verbatim>\<open>items\<close> of the answer (the empty list when it is not an array). The result
  \<^term>\<open>None\<close> is \<^verbatim>\<open>{ ok: false }\<close>.
\<close>

definition callGrokParseItems :: "bool \<Rightarrow> ParsedItem list option \<Rightarrow> ParsedItem list option" where
  "callGrokParseItems key parsed =
     (if \<not> key then None
      else
        (case parsed of
           None \<Rightarrow> None
         | Some parsed_items \<Rightarrow>
             Some (filter (\<lambda>i. name i \<noteq> [] \<and> daily_usage i > 0) parsed_items)))"

text \<open>
  Handler steps 1 and 2: the forecasted items are computed only when the extraction
  succeeded with at least one item.
\<close>

definition forecastedItemsOf :: "ParsedItem list option \<Rightarrow> real \<Rightarrow> ForecastedItem list" where
  "forecastedItemsOf parseResult forecastHorizon =
     (case parseResult of
        Some parsed_items \<Rightarrow>
          if parsed_items \<noteq> [] then forecastDemand parsed_items forecastHorizon else []
      | None \<Rightarrow> [])"

text \<open>
  The \<^verbatim>\<open>search_queries\<close> field of the query generation's answer: an array of strings,
  one string, or absent.
\<close>

datatype search_queries_json = QueriesArray "string list" | QueriesValue string | QueriesAbsent

definition callGrokForSearchQueries :: "bool \<Rightarrow> search_queries_json option \<Rightarrow> string list option" where
  "callGrokForSearchQueries key parsed =
     (if \<not> key then None
      else
        (case parsed of
           None \<Rightarrow> None
         | Some search_queries \<Rightarrow>
             (let queries =
                (case search_queries of
                   QueriesArray qs \<Rightarrow> qs
                 | QueriesValue q \<Rightarrow> if q \<noteq> [] then [q] else []
                 | QueriesAbsent \<Rightarrow> [])
              in Some (filter (\<lambda>q. q \<noteq> []) (map trim queries)))))"

definition planSearchQueries :: "string list option \<Rightarrow> ForecastedItem list \<Rightarrow> string \<Rightarrow> string list" where
  "planSearchQueries grokQueriesResult forecastedItems prompt =
     (let fallback =
        (if forecastedItems \<noteq> [] then map name forecastedItems
         else filter (\<lambda>q. q \<noteq> []) [if prompt \<noteq> [] then prompt else ''product''])
      in case grokQueriesResult of
           Some search_queries \<Rightarrow> if search_queries \<noteq> [] then search_queries else fallback
         | None \<Rightarrow> fallback)"

subsection \<open>Selector (\<^verbatim>\<open>recommendFromWebShop\<close>, \<^verbatim>\<open>callGrokOnSearchResults\<close>)\<close>

text \<open>
  A selected item, as the selector returns it and the payment table reads it. \<^verbatim>\<open>quantity\<close>
  and \<^verbatim>\<open>unit_price\<close> are numbers of the JSON.
\<close>

record SelectedItem =
  item_asin :: "string option"
  item_product_name :: string
  quantity :: real
  unit_price :: real
  reason :: string
  item_link :: "string option"

text \<open>
  \<^verbatim>\<open>parseFloat(s) || d\<close> on the parse's result: \<^verbatim>\<open>NaN\<close> and 0 are falsy.
\<close>

definition number_or :: "real option \<Rightarrow> real \<Rightarrow> real" where
  "number_or n d = (case n of None \<Rightarrow> d | Some x \<Rightarrow> if x = 0 then d else x)"

datatype source = grok | webshop

text \<open>The ranking capability's parsed answer; \<^verbatim>\<open>items\<close> may be absent.\<close>

record GrokData =
  grok_items :: "SelectedItem list option"

text \<open>
  \<^verbatim>\<open>link: list.find((r) => r.asin === i.asin)?.link || i.link\<close>.
\<close>

definition relink :: "SearchResult list \<Rightarrow> SelectedItem \<Rightarrow> SelectedItem" where
  "relink list i =
     i \<lparr> item_link :=
           (case find (\<lambda>r. asin r = item_asin i) list of
              Some r \<Rightarrow> if truthy (link r) then link r else item_link i
            | None \<Rightarrow> item_link i) \<rparr>"

type_synonym ranking =
  "SearchResult list \<Rightarrow> string \<Rightarrow> real \<Rightarrow> ForecastedItem list \<Rightarrow> string list \<Rightarrow> GrokData option"

text \<open>
  The language model is the parameter \<open>llm\<close>: given the arguments of the call it returns
  the parsed JSON of the answer, or \<^term>\<open>None\<close> when the request failed or the answer held
  no JSON. With \<^verbatim>\<open>chainLog\<close> set, an answer without \<^verbatim>\<open>items\<close> raises inside the
  \<^verbatim>\<open>try\<close> (the log line reads \<^verbatim>\<open>parsed.items.length\<close>) and the result is
  \<^verbatim>\<open>{ ok: false }\<close>.
\<close>

definition callGrokOnSearchResults ::
  "bool \<Rightarrow> ranking \<Rightarrow> SearchResult list \<Rightarrow> string \<Rightarrow> real \<Rightarrow> bool \<Rightarrow> ForecastedItem list
     \<Rightarrow> string list \<Rightarrow> GrokData option" where
  "callGrokOnSearchResults key llm searchResults prompt fundsCrypto chainLog forecastedItems
       searchQueriesRun =
     (if \<not> key then None
      else
        (case llm searchResults prompt fundsCrypto forecastedItems searchQueriesRun of
           None \<Rightarrow> None
         | Some parsed \<Rightarrow>
             (case grok_items parsed of
                Some its \<Rightarrow>
                  Some (if its \<noteq> [] then parsed \<lparr> grok_items := Some (map (relink searchResults) its) \<rparr>
                        else parsed)
              | None \<Rightarrow> if chainLog then None else Some parsed)))"

text \<open>The item the fallback builds from a search result.\<close>

definition webshopItem :: "SearchResult \<Rightarrow> SelectedItem" where
  "webshopItem r =
     \<lparr> item_asin = asin r,
       item_product_name = product_name r,
       quantity = 1,
       unit_price = (case price r of None \<Rightarrow> 0 | Some p \<Rightarrow> p),
       reason = ''Found on WebShop (''
                  @ (if truthy (result_category r) then the (result_category r) else ''product'')
                  @ '').'',
       item_link = link r \<rparr>"

text \<open>
  The result of \<^verbatim>\<open>recommendFromWebShop\<close>: the items of \<^verbatim>\<open>data\<close> and the source. The
  \<^verbatim>\<open>reasoning\<close> text is left out. \<open>parsedFunds\<close> is \<^verbatim>\<open>parseFloat(fundsCrypto)\<close>.
\<close>

record Recommendation =
  rec_items :: "SelectedItem list"
  rec_source :: source

definition recommendFromWebShop ::
  "bool \<Rightarrow> ranking \<Rightarrow> SearchResult list \<Rightarrow> string \<Rightarrow> real option \<Rightarrow> bool \<Rightarrow> ForecastedItem list
     \<Rightarrow> string list \<Rightarrow> Recommendation" where
  "recommendFromWebShop key llm mergedResults prompt parsedFunds chainLog forecastedItems
       searchQueriesRun =
     (let results = mergedResults;
          funds = number_or parsedFunds 200;
          grokResult =
            (if key \<and> length results > 0 then
               callGrokOnSearchResults key llm results prompt funds chainLog forecastedItems
                 searchQueriesRun
             else None);
          fallback =
            \<lparr> rec_items = filter (\<lambda>i. unit_price i \<le> funds) (map webshopItem (take 8 results)),
              rec_source = webshop \<rparr>
      in case grokResult of
           Some data \<Rightarrow>
             (case grok_items data of
                Some its \<Rightarrow> if its \<noteq> [] then \<lparr> rec_items = its, rec_source = grok \<rparr> else fallback
              | None \<Rightarrow> fallback)
         | None \<Rightarrow> fallback)"

subsection \<open>Unfound resolver (\<^verbatim>\<open>parsePriceFromText\<close>, \<^verbatim>\<open>buildUnfoundItems\<close>)\<close>

definition is_digit :: "char \<Rightarrow> bool" where
  "is_digit c = (c \<in> set ''0123456789'')"

text \<open>
  The first match of \<^verbatim>\<open>/\$[\d,]+(?:\.\d{2})?/\<close>: the leftmost dollar sign that is
  followed by at least one digit or comma, the longest run of digits and commas after it,
  and a point with two digits when they follow.
\<close>

fun price_match :: "string \<Rightarrow> string option" where
  "price_match [] = None"
| "price_match (c # cs) =
     (let body = takeWhile (\<lambda>d. is_digit d \<or> d = CHR '','') cs;
          rest = dropWhile (\<lambda>d. is_digit d \<or> d = CHR '','') cs
      in if c = CHR ''$'' \<and> body \<noteq> [] then
           Some (c # body @
             (case rest of
                p # d1 # d2 # _ \<Rightarrow> if p = CHR ''.'' \<and> is_digit d1 \<and> is_digit d2 then [p, d1, d2] else []
              | _ \<Rightarrow> []))
         else price_match cs)"

definition digits_value :: "string \<Rightarrow> nat" where
  "digits_value ds = foldl (\<lambda>n c. 10 * n + (of_char c - 48)) 0 ds"

text \<open>
  \<^verbatim>\<open>parseFloat\<close> on a string of digits with an optional fraction, which is what is left
  of a match once \<^verbatim>\<open>$\<close> and the commas are removed: \<^verbatim>\<open>NaN\<close> when there is no digit.
  The value is exact (a digit string too long for a double would give \<^verbatim>\<open>Infinity\<close>, which
  \<^verbatim>\<open>parsePriceFromText\<close> rejects; the model has no such string).
\<close>

definition parseFloat_decimal :: "string \<Rightarrow> real option" where
  "parseFloat_decimal s =
     (let ip = takeWhile is_digit s;
          rest = dropWhile is_digit s;
          fp = (case rest of [] \<Rightarrow> [] | c # ds \<Rightarrow> if c = CHR ''.'' then takeWhile is_digit ds else [])
      in if ip = [] \<and> fp = [] then None
         else Some (real (digits_value ip) + real (digits_value fp) / 10 ^ length fp))"

definition parsePriceFromText :: "string option \<Rightarrow> real option" where
  "parsePriceFromText text_value =
     (case text_value of
        None \<Rightarrow> None
      | Some t \<Rightarrow>
          if t = [] then None
          else
            (case price_match t of
               None \<Rightarrow> None
             | Some m \<Rightarrow>
                 (case parseFloat_decimal (filter (\<lambda>c. c \<noteq> CHR ''$'' \<and> c \<noteq> CHR '','') m) of
                    None \<Rightarrow> None
                  | Some n \<Rightarrow> if n > 0 then Some n else None)))"

text \<open>A result of the web-search fallback.\<close>

record RawResult =
  title :: "string option"
  raw_link :: "string option"
  snippet :: "string option"
  raw_price :: "string option"

record UnfoundItem =
  query :: string
  unfound_product_name :: string
  unfound_link :: string
  search_results :: "RawResult list option"
  unfound_unit_price :: "real option"
  unfound_quantity :: int
  line_total :: "real option"

text \<open>\<^verbatim>\<open>a || b\<close> on an optional string and on an optional number that is never 0.\<close>

definition string_or :: "string option \<Rightarrow> string \<Rightarrow> string" where
  "string_or a b = (if truthy a then the a else b)"

definition price_or :: "real option \<Rightarrow> real option \<Rightarrow> real option" where
  "price_or a b = (case a of Some x \<Rightarrow> Some x | None \<Rightarrow> b)"

text \<open>
  The body of the loop of \<^verbatim>\<open>buildUnfoundItems\<close>: the item pushed and the new value of
  \<^verbatim>\<open>remaining\<close>. \<open>externalSearchLink\<close> is the function of that name, a parameter here
  (it URL-encodes the query).
\<close>

definition unfound_step :: "(string \<Rightarrow> string) \<Rightarrow> string \<Rightarrow> RawResult list \<Rightarrow> real \<Rightarrow> UnfoundItem \<times> real" where
  "unfound_step externalSearchLink q results_for_q remaining =
     (let first = (case results_for_q of [] \<Rightarrow> None | f # _ \<Rightarrow> Some f);
          link_value = string_or (Option.bind first raw_link) (externalSearchLink q);
          product_name_value = string_or (Option.bind first title) q;
          snippet_value = string_or (Option.bind first snippet) [];
          unit_price_value =
            price_or (parsePriceFromText (Option.bind first raw_price))
              (price_or (parsePriceFromText (Some snippet_value))
                 (parsePriceFromText (Some product_name_value)));
          quantity_value =
            (case unit_price_value of
               Some p \<Rightarrow> min 99 (max 1 \<lfloor>remaining / p\<rfloor>)
             | None \<Rightarrow> 1);
          remaining' =
            (case unit_price_value of
               Some p \<Rightarrow> if quantity_value > 0 then remaining - of_int quantity_value * p else remaining
             | None \<Rightarrow> remaining);
          line_total_value = map_option (\<lambda>p. of_int quantity_value * p) unit_price_value
      in (\<lparr> query = q,
            unfound_product_name = product_name_value,
            unfound_link = link_value,
            search_results = (if results_for_q \<noteq> [] then Some results_for_q else None),
            unfound_unit_price = unit_price_value,
            unfound_quantity = quantity_value,
            line_total = line_total_value \<rparr>,
          remaining'))"

text \<open>
  \<^verbatim>\<open>for (let i = 0; i < unfoundQueries.length; i++)\<close>, on \<^verbatim>\<open>items\<close> and
  \<^verbatim>\<open>remaining\<close>; \<^verbatim>\<open>rawSearches[i] || []\<close> is the empty list past the end of
  \<^verbatim>\<open>rawSearches\<close>.
\<close>

function unfound_loop ::
  "(string \<Rightarrow> string) \<Rightarrow> string list \<Rightarrow> RawResult list list \<Rightarrow> nat \<Rightarrow> UnfoundItem list \<Rightarrow> real
     \<Rightarrow> UnfoundItem list \<times> real" where
  "unfound_loop externalSearchLink unfoundQs rawSearches i items_acc remaining =
     (if i < length unfoundQs then
        (let q = unfoundQs ! i;
             results_for_q = (if i < length rawSearches then rawSearches ! i else []);
             step = unfound_step externalSearchLink q results_for_q remaining
         in unfound_loop externalSearchLink unfoundQs rawSearches (i + 1)
              (items_acc @ [fst step]) (snd step))
      else (items_acc, remaining))"
  by pat_completeness auto
termination
  by (relation "measure (\<lambda>(l, unfoundQs, rawSearches, i, items_acc, remaining). length unfoundQs - i)")
    auto

declare unfound_loop.simps [simp del]

text \<open>
  The function starts \<^verbatim>\<open>remaining\<close> at the budget when that is positive, at 0
  otherwise (\<^verbatim>\<open>Number.isFinite\<close> holds of every number of the model), and runs the
  loop. \<^verbatim>\<open>buildUnfoundItems\<close> returns the items; \<open>remainingAfter\<close> is the value its
  variable \<^verbatim>\<open>remaining\<close> has when it returns.
\<close>

definition allocateUnfound ::
  "(string \<Rightarrow> string) \<Rightarrow> string list \<Rightarrow> RawResult list list \<Rightarrow> real \<Rightarrow> UnfoundItem list \<times> real" where
  "allocateUnfound externalSearchLink unfoundQs rawSearches budgetForQuantity =
     unfound_loop externalSearchLink unfoundQs rawSearches 0 []
       (if budgetForQuantity > 0 then budgetForQuantity else 0)"

definition buildUnfoundItems ::
  "(string \<Rightarrow> string) \<Rightarrow> string list \<Rightarrow> RawResult list list \<Rightarrow> real \<Rightarrow> UnfoundItem list" where
  "buildUnfoundItems externalSearchLink unfoundQs rawSearches budgetForQuantity =
     fst (allocateUnfound externalSearchLink unfoundQs rawSearches budgetForQuantity)"




subsection \<open>The recommendation entrypoint (\<^verbatim>\<open>POST /api/recommend\<close>)\<close>

text \<open>
  What the outside world answered during one request: whether an API key is configured,
  the parsed answers of the two planning calls, the catalog, the web-search fallback, the
  ranking model, and the link builder for unfound queries.
\<close>

record Capabilities =
  hasKey :: bool
  parsedItemsAnswer :: "ParsedItem list option"
  searchQueriesAnswer :: "search_queries_json option"
  callWebShopSearch :: "nat \<Rightarrow> string \<Rightarrow> SearchResponse option"
  runExternalSearch :: "string \<Rightarrow> RawResult list"
  rankingAnswer :: ranking
  externalSearchLink :: "string \<Rightarrow> string"

text \<open>The fields of the JSON response that the chain computes.\<close>

record Response =
  parsedItems :: "ForecastedItem list"
  recommendation_items :: "SelectedItem list"
  unfound_items :: "UnfoundItem list option"
  totalCost :: real
  response_source :: source
  webshopQueries :: "string list"

definition HOLIDAY_PS5_LINK :: string where
  "HOLIDAY_PS5_LINK = ''https://www.gamestop.com/consoles-hardware/playstation-5/consoles/products/sony-playstation-5-slim-console-disc-edition/402677.html''"

text \<open>
  The handler. \<open>isHolidaySellPrompt\<close> is the outcome of the prompt tests at the top of the
  handler, \<open>parsedFunds\<close> is \<^verbatim>\<open>parseFloat(fundsCrypto)\<close> and \<open>forecastHorizon\<close> the
  number of the request body. The branches are those of the source: the holiday shortcut,
  the return with unfound items only when the catalog gave nothing, and the full chain.
\<close>

definition recommend :: "Capabilities \<Rightarrow> bool \<Rightarrow> string \<Rightarrow> real option \<Rightarrow> real \<Rightarrow> Response" where
  "recommend caps isHolidaySellPrompt prompt parsedFunds forecastHorizon =
     (if isHolidaySellPrompt then
        (let fundsNum = number_or parsedFunds 200;
             unitPrice = 499;
             quantity_value = min 99 (max 1 \<lfloor>fundsNum / unitPrice\<rfloor>);
             totalCost_value = of_int quantity_value * unitPrice
         in \<lparr> parsedItems = [],
              recommendation_items =
                [\<lparr> item_asin = Some ''HOLIDAY-PS5'',
                   item_product_name = ''PlayStation 5 bundles'',
                   quantity = of_int quantity_value,
                   unit_price = unitPrice,
                   reason = ''Holiday best-seller; external research + internal product search.'',
                   item_link = Some HOLIDAY_PS5_LINK \<rparr>],
              unfound_items = None,
              totalCost = totalCost_value,
              response_source = grok,
              webshopQueries = [''playstation 5 holiday''] \<rparr>)
      else
        (let parseResult = callGrokParseItems (hasKey caps) (parsedItemsAnswer caps);
             forecastedItems = forecastedItemsOf parseResult forecastHorizon;
             grokQueriesResult = callGrokForSearchQueries (hasKey caps) (searchQueriesAnswer caps);
             searchQueries = planSearchQueries grokQueriesResult forecastedItems prompt;
             d = dispatch (callWebShopSearch caps) searchQueries;
             fundsNum = number_or parsedFunds 200;
             rawUnfoundSearches = map (runExternalSearch caps) (unfoundQueries d)
         in if length (allResults d) = 0 then
              \<lparr> parsedItems = forecastedItems,
                recommendation_items = [],
                unfound_items =
                  Some (buildUnfoundItems (externalSearchLink caps) (unfoundQueries d)
                          rawUnfoundSearches fundsNum),
                totalCost = 0,
                response_source = webshop,
                webshopQueries = usedQueries d \<rparr>
            else
              (let merged = mergeSearchResults (allResults d);
                   result = recommendFromWebShop (hasKey caps) (rankingAnswer caps) merged prompt
                              parsedFunds True forecastedItems (usedQueries d);
                   totalCost_value =
                     foldl (\<lambda>total i. total + quantity i * unit_price i) 0 (rec_items result);
                   remainingBudget = max 0 (fundsNum - totalCost_value);
                   unfoundItems = buildUnfoundItems (externalSearchLink caps) (unfoundQueries d)
                                    rawUnfoundSearches remainingBudget
               in \<lparr> parsedItems = forecastedItems,
                    recommendation_items = rec_items result,
                    unfound_items = (if unfoundItems \<noteq> [] then Some unfoundItems else None),
                    totalCost = Math_round (totalCost_value * 100) / 100,
                    response_source = rec_source result,
                    webshopQueries = usedQueries d \<rparr>)))"

subsection \<open>Payment table (\<^verbatim>\<open>App.jsx\<close>, the approved branch)\<close>

record PaymentStep =
  step_product_name :: string
  step_quantity :: real
  step_unit_price :: real
  lineTotal :: real
  balanceAfter :: real

text \<open>
  \<^verbatim>\<open>items.map((item) => { ...; runningBalance -= lineTotal; ... })\<close>: the callback
  updates the variable \<^verbatim>\<open>runningBalance\<close> of the enclosing function, so the model
  threads it through the list and returns its last value with the steps.
\<close>

fun paymentSteps :: "real \<Rightarrow> SelectedItem list \<Rightarrow> PaymentStep list \<times> real" where
  "paymentSteps runningBalance [] = ([], runningBalance)"
| "paymentSteps runningBalance (item # items) =
     (let lineTotal = quantity item * unit_price item;
          runningBalance' = runningBalance - lineTotal;
          step = \<lparr> step_product_name = item_product_name item,
                   step_quantity = quantity item,
                   step_unit_price = unit_price item,
                   lineTotal = lineTotal,
                   balanceAfter = runningBalance' \<rparr>;
          (steps, final) = paymentSteps runningBalance' items
      in (step # steps, final))"

record Ledger =
  startBalance :: real
  steps :: "PaymentStep list"
  totalSpent :: real
  finalBalance :: real

text \<open>
  What the approved branch renders: row 0 with \<^verbatim>\<open>startBalance\<close>, one row per payment
  step, and the closing row with \<^verbatim>\<open>totalSpent\<close> and the last
  \<^verbatim>\<open>runningBalance\<close>.
\<close>

definition paymentLedger :: "real \<Rightarrow> SelectedItem list \<Rightarrow> Ledger" where
  "paymentLedger fundsAmountUsd items =
     (let startBalance = fundsAmountUsd;
          (paymentSteps, runningBalance) = paymentSteps startBalance items;
          totalSpent = startBalance - runningBalance
      in \<lparr> startBalance = startBalance, steps = paymentSteps,
           totalSpent = totalSpent, finalBalance = runningBalance \<rparr>)"

definition lineTotals :: "SelectedItem list \<Rightarrow> real list" where
  "lineTotals items = map (\<lambda>i. quantity i * unit_price i) items"

section \<open>Properties\<close>

subsection \<open>Demand estimator\<close>

lemma rne_of_int: "rne (of_int k) = k"
  by (simp add: rne_def)

lemma rne_bounds: "\<lfloor>x\<rfloor> \<le> rne x" "rne x \<le> \<lfloor>x\<rfloor> + 1"
  by (simp_all add: rne_def Let_def)

lemma rne_mono: "x \<le> y \<Longrightarrow> rne x \<le> rne y"
proof -
  assume xy: "x \<le> y"
  then have f: "\<lfloor>x\<rfloor> \<le> \<lfloor>y\<rfloor>" by (rule floor_mono)
  show ?thesis
  proof (cases "\<lfloor>x\<rfloor> = \<lfloor>y\<rfloor>")
    case True
    with xy have "x - of_int \<lfloor>x\<rfloor> \<le> y - of_int \<lfloor>y\<rfloor>" by simp
    with True show ?thesis by (auto simp: rne_def Let_def)
  next
    case False
    with f have "\<lfloor>x\<rfloor> + 1 \<le> \<lfloor>y\<rfloor>" by simp
    with rne_bounds(2) [of x] rne_bounds(1) [of y] show ?thesis by linarith
  qed
qed

lemma rne_le: "x \<le> of_int b \<Longrightarrow> rne x \<le> b"
  using rne_mono [of x "of_int b"] by (simp add: rne_of_int)

lemma rne_ge: "of_int a \<le> x \<Longrightarrow> a \<le> rne x"
  using rne_mono [of "of_int a" x] by (simp add: rne_of_int)

lemma double_exponent_upper:
  assumes "0 < x"
  shows "x < 2 powr (of_int (double_exponent x) + 1)"
proof -
  have "log 2 x < of_int \<lfloor>log 2 x\<rfloor> + 1" by linarith
  also have "\<dots> \<le> of_int (double_exponent x) + 1"
    using assms by (simp add: double_exponent_def)
  finally have "log 2 x < of_int (double_exponent x) + 1" .
  with assms show ?thesis by (simp add: less_powr_iff)
qed

lemma double_exponent_lower:
  assumes "0 < x" and "- 1022 < double_exponent x"
  shows "2 powr of_int (double_exponent x) \<le> x"
proof -
  from assms have "double_exponent x = \<lfloor>log 2 x\<rfloor>" by (auto simp: double_exponent_def)
  then have "of_int (double_exponent x) \<le> log 2 x" by simp
  with assms(1) show ?thesis by (simp add: powr_le_iff)
qed

lemma double_exponent_mono:
  assumes "0 < x" and "x \<le> y"
  shows "double_exponent x \<le> double_exponent y"
proof -
  from assms have "log 2 x \<le> log 2 y" by simp
  then have "\<lfloor>log 2 x\<rfloor> \<le> \<lfloor>log 2 y\<rfloor>" by (rule floor_mono)
  with assms show ?thesis by (simp add: double_exponent_def)
qed

lemma double_round_nonneg: "0 \<le> x \<Longrightarrow> 0 \<le> double_round x"
proof -
  assume "0 \<le> x"
  then have "of_int 0 \<le> x / 2 powr (of_int (double_exponent x) - 52)" by simp
  then have "0 \<le> rne (x / 2 powr (of_int (double_exponent x) - 52))" by (rule rne_ge)
  then show ?thesis by (simp add: double_round_def Let_def)
qed

lemma double_round_le_binade:
  assumes "0 < x"
  shows "double_round x \<le> 2 powr (of_int (double_exponent x) + 1)"
proof -
  let ?e = "double_exponent x"
  let ?u = "2 powr (of_int ?e - 52) :: real"
  have u: "0 < ?u" by simp
  have "x / ?u < 2 powr (of_int ?e + 1) / ?u"
    using double_exponent_upper [OF assms] u by (simp add: divide_strict_right_mono)
  also have "\<dots> = 2 powr 53" by (simp add: powr_diff [symmetric])
  also have "\<dots> = of_int (2 ^ 53)" by simp
  finally have "rne (x / ?u) \<le> 2 ^ 53" by (intro rne_le less_imp_le)
  then have "of_int (rne (x / ?u)) * ?u \<le> of_int (2 ^ 53) * ?u"
    using u by (intro mult_right_mono) (simp_all only: of_int_le_iff less_imp_le)
  also have "of_int (2 ^ 53) * ?u = 2 powr 53 * ?u" by simp
  also have "\<dots> = 2 powr (53 + (of_int ?e - 52))" by (rule powr_add [symmetric])
  also have "53 + (real_of_int ?e - 52) = of_int ?e + 1" by simp
  finally show ?thesis using assms by (simp add: double_round_def Let_def)
qed

lemma double_round_ge_binade:
  assumes "0 < x" and "- 1022 < double_exponent x"
  shows "2 powr of_int (double_exponent x) \<le> double_round x"
proof -
  let ?e = "double_exponent x"
  let ?u = "2 powr (of_int ?e - 52) :: real"
  have u: "0 < ?u" by simp
  have "of_int (2 ^ 52) = (2 powr 52 :: real)" by simp
  also have "\<dots> = 2 powr of_int ?e / ?u" by (simp add: powr_diff [symmetric])
  also have "\<dots> \<le> x / ?u"
    using double_exponent_lower [OF assms] u by (simp add: divide_right_mono)
  finally have "2 ^ 52 \<le> rne (x / ?u)" by (rule rne_ge)
  then have A: "of_int (2 ^ 52) * ?u \<le> of_int (rne (x / ?u)) * ?u"
    using u by (intro mult_right_mono) (simp_all only: of_int_le_iff less_imp_le)
  have B: "of_int (2 ^ 52) * ?u = 2 powr of_int ?e"
  proof -
    have "of_int (2 ^ 52) * ?u = 2 powr 52 * ?u" by simp
    also have "\<dots> = 2 powr (52 + (of_int ?e - 52))" by (rule powr_add [symmetric])
    also have "52 + (real_of_int ?e - 52) = of_int ?e" by simp
    finally show ?thesis .
  qed
  have "2 powr of_int ?e \<le> of_int (rne (x / ?u)) * ?u" using A unfolding B .
  then show ?thesis using assms(1) by (simp add: double_round_def Let_def)
qed

lemma double_round_mono:
  assumes "0 \<le> x" and "x \<le> y"
  shows "double_round x \<le> double_round y"
proof (cases "x = 0")
  case True
  with assms double_round_nonneg [of y] show ?thesis by (simp add: double_round_def)
next
  case False
  with assms have x: "0 < x" and y: "0 < y" by simp_all
  have e: "double_exponent x \<le> double_exponent y"
    using x assms(2) by (rule double_exponent_mono)
  show ?thesis
  proof (cases "double_exponent x = double_exponent y")
    case True
    let ?u = "2 powr (of_int (double_exponent y) - 52) :: real"
    have u: "0 < ?u" by simp
    from assms(2) u have "x / ?u \<le> y / ?u" by (simp add: divide_right_mono)
    then have "rne (x / ?u) \<le> rne (y / ?u)" by (rule rne_mono)
    then have "of_int (rne (x / ?u)) * ?u \<le> of_int (rne (y / ?u)) * ?u"
      using u by (intro mult_right_mono) (simp_all only: of_int_le_iff less_imp_le)
    then show ?thesis using x y True by (simp add: double_round_def Let_def)
  next
    case False
    with e have lt: "double_exponent x + 1 \<le> double_exponent y" by simp
    have "- 1022 \<le> double_exponent x" by (simp add: double_exponent_def)
    with lt have ny: "- 1022 < double_exponent y" by simp
    have "double_round x \<le> 2 powr (of_int (double_exponent x) + 1)"
      using x by (rule double_round_le_binade)
    also have "\<dots> \<le> 2 powr of_int (double_exponent y)"
    proof -
      from lt have "real_of_int (double_exponent x) + 1 \<le> real_of_int (double_exponent y)"
        by linarith
      then show ?thesis by (rule powr_mono) simp
    qed
    also have "\<dots> \<le> double_round y" using y ny by (rule double_round_ge_binade)
    finally show ?thesis .
  qed
qed

lemma double_round_exact:
  assumes k: "0 < k" "k < 2 ^ 53" and j: "- 1074 \<le> j"
  shows "double_round (of_int k * 2 powr of_int j) = of_int k * 2 powr of_int j"
proof -
  let ?x = "real_of_int k * 2 powr of_int j"
  let ?e = "double_exponent ?x"
  let ?u = "2 powr (of_int ?e - 52) :: real"
  have x: "0 < ?x" using k(1) by simp
  have "log 2 (real_of_int k) < 53"
  proof -
    have "real_of_int k < of_int (2 ^ 53)" using k(2) by (simp only: of_int_less_iff)
    also have "\<dots> = 2 powr 53" by simp
    finally show ?thesis using k(1) by (simp add: log_less_iff)
  qed
  moreover have "log 2 \<bar>?x\<bar> = log 2 (real_of_int k) + of_int j"
    using k(1) by (simp add: log_mult)
  ultimately have "log 2 \<bar>?x\<bar> < of_int (53 + j)" by simp
  then have "\<lfloor>log 2 \<bar>?x\<bar>\<rfloor> < 53 + j" by (simp only: floor_less_iff)
  with j have e: "?e - 52 \<le> j" by (simp add: double_exponent_def)
  define n where "n = nat (j - (?e - 52))"
  have n: "of_int j - (of_int ?e - 52) = real n" using e by (simp add: n_def)
  have "?x / ?u = of_int k * (2 powr of_int j / ?u)" by simp
  also have "2 powr of_int j / ?u = 2 powr (of_int j - (of_int ?e - 52))"
    by (rule powr_diff [symmetric])
  also have "\<dots> = 2 ^ n" unfolding n by (simp add: powr_realpow)
  finally have q: "?x / ?u = of_int (k * 2 ^ n)" by simp
  have "of_int (rne (?x / ?u)) * ?u = ?x / ?u * ?u"
    unfolding q rne_of_int ..
  also have "\<dots> = ?x" by simp
  finally show ?thesis using x by (simp add: double_round_def Let_def)
qed

lemma double_round_int: "0 < k \<Longrightarrow> k < 2 ^ 53 \<Longrightarrow> double_round (of_int k) = of_int k"
  using double_round_exact [of k 0] by simp

lemma double_round_eighths:
  "0 < k \<Longrightarrow> k < 2 ^ 53 \<Longrightarrow> double_round (of_int k / 8) = of_int k / 8"
proof -
  assume k: "0 < k" "k < 2 ^ 53"
  have "(2::real) powr (- 3) = 1 / 2 powr 3" by (rule powr_minus_divide)
  also have "\<dots> = 1 / 8" by simp
  finally have p: "(2::real) powr real_of_int (- 3) = 1 / 8" by simp
  have eq: "real_of_int k / 8 = of_int k * 2 powr real_of_int (- 3)" unfolding p by simp
  show ?thesis unfolding eq by (rule double_round_exact [OF k]) simp
qed

lemma double_exponent_binade:
  assumes "0 < x" and "2 powr of_int e \<le> x" and "x < 2 powr (of_int e + 1)" and "- 1022 \<le> e"
  shows "double_exponent x = e"
proof -
  from assms(1,2) have "of_int e \<le> log 2 x" by (simp add: powr_le_iff)
  moreover from assms(1,3) have "log 2 x < of_int e + 1" by (simp add: less_powr_iff)
  ultimately have "\<lfloor>log 2 x\<rfloor> = e" by (simp add: floor_eq_iff)
  with assms(1,4) show ?thesis by (simp add: double_exponent_def)
qed

lemma double_round_binade:
  assumes "0 < x" and "2 powr of_int e \<le> x" and "x < 2 powr (of_int e + 1)" and "- 1022 \<le> e"
  shows "double_round x = of_int (rne (x / 2 powr (of_int e - 52))) * 2 powr (of_int e - 52)"
  using assms(1) by (simp add: double_round_def Let_def double_exponent_binade [OF assms])

lemma SAFETY_STOCK_MULTIPLIER_value: "SAFETY_STOCK_MULTIPLIER = 5404319552844595 / 2 ^ 52"
proof -
  have u: "(2::real) powr (of_int 0 - 52) = 1 / 2 ^ 52"
  proof -
    have "(2::real) powr (- 52) = 1 / 2 powr 52" by (rule powr_minus_divide)
    then show ?thesis by simp
  qed
  have r: "rne (12 / 10 / (1 / 2 ^ 52)) = 5404319552844595"
  proof -
    have f: "\<lfloor>12 / 10 / (1 / 2 ^ 52 :: real)\<rfloor> = 5404319552844595"
      by (simp add: floor_eq_iff)
    show ?thesis unfolding rne_def Let_def f by simp
  qed
  have "double_round (12 / 10) = of_int (rne (12 / 10 / 2 powr (of_int 0 - 52))) * 2 powr (of_int 0 - 52)"
    by (rule double_round_binade) simp_all
  also have "\<dots> = 5404319552844595 / 2 ^ 52" unfolding u r by simp
  finally show ?thesis by (simp add: SAFETY_STOCK_MULTIPLIER_def)
qed

lemma SAFETY_STOCK_MULTIPLIER_minus_1:
  "double_round (SAFETY_STOCK_MULTIPLIER - 1) = 900719925474099 / 2 ^ 52"
proof -
  have p: "(2::real) powr real_of_int (- 52) = 1 / 2 ^ 52"
  proof -
    have "(2::real) powr (- 52) = 1 / 2 powr 52" by (rule powr_minus_divide)
    then show ?thesis by simp
  qed
  have eq: "SAFETY_STOCK_MULTIPLIER - 1 = of_int 900719925474099 * 2 powr real_of_int (- 52)"
    unfolding p SAFETY_STOCK_MULTIPLIER_value by simp
  have "double_round (SAFETY_STOCK_MULTIPLIER - 1) = of_int 900719925474099 * 2 powr real_of_int (- 52)"
    unfolding eq by (rule double_round_exact) simp_all
  then show ?thesis unfolding p by simp
qed

lemma ceiling_double_round:
  assumes c: "1 \<le> c" "c < 2 ^ 50" and lo: "of_int c - 7 / 8 \<le> y" and hi: "y \<le> of_int c"
  shows "\<lceil>double_round y\<rceil> = c"
proof -
  from c have k: "0 < 8 * c - 7" "8 * c - 7 < 2 ^ 53" by simp_all
  have d: "real_of_int (8 * c - 7) / 8 = of_int c - 7 / 8" by simp
  have "double_round (of_int c - 7 / 8) = of_int c - 7 / 8"
    using double_round_eighths [OF k] unfolding d .
  moreover have "double_round (of_int c - 7 / 8) \<le> double_round y"
    using c(1) lo by (intro double_round_mono) simp_all
  ultimately have 1: "of_int c - 7 / 8 \<le> double_round y" by simp
  have "double_round y \<le> double_round (of_int c)"
    using c(1) lo hi by (intro double_round_mono) simp_all
  moreover have "double_round (of_int c) = of_int c"
    using c by (intro double_round_int) simp_all
  ultimately have 2: "double_round y \<le> of_int c" by simp
  from 1 2 show ?thesis by (intro ceiling_unique) simp_all
qed

lemma ceiling_fifths_bounds:
  fixes m :: int
  defines "c \<equiv> \<lceil>real_of_int m / 5\<rceil>"
  assumes m: "0 < m"
  shows "real_of_int m / 5 \<le> of_int c" and "of_int c \<le> real_of_int m / 5 + 4 / 5" and "1 \<le> c"
proof -
  show up: "real_of_int m / 5 \<le> of_int c" unfolding c_def by (rule le_of_int_ceiling)
  have "of_int c < real_of_int m / 5 + 1" unfolding c_def by linarith
  then have "real_of_int (5 * c) < real_of_int (m + 5)" by simp
  then have "5 * c < m + 5" by (simp only: of_int_less_iff)
  then have "5 * c \<le> m + 4" by simp
  then have "real_of_int (5 * c) \<le> real_of_int (m + 4)" by (simp only: of_int_le_iff)
  then show "of_int c \<le> real_of_int m / 5 + 4 / 5" by simp
  from m up have "0 < real_of_int c" by (smt (verit) divide_pos_pos of_int_0_less_iff)
  then show "1 \<le> c" by simp
qed

lemma whole_demand_ceilings:
  assumes n: "0 < n" "n < 2 ^ 49"
  shows "\<lceil>double_round (of_int n * (900719925474099 / 2 ^ 52))\<rceil> = \<lceil>real_of_int n / 5\<rceil>"
    and "\<lceil>double_round (of_int n * (5404319552844595 / 2 ^ 52))\<rceil> = n + \<lceil>real_of_int n / 5\<rceil>"
proof -
  let ?s = "\<lceil>real_of_int n / 5\<rceil>"
  have p52: "(2::real) ^ 52 = 4503599627370496" by simp
  have nr: "0 < real_of_int n" "real_of_int n < 562949953421312" using n by simp_all
  note s = ceiling_fifths_bounds [OF n(1)]
  have s50: "?s < 2 ^ 50"
  proof -
    have "real_of_int (2 ^ 50 :: int) = 1125899906842624" by simp
    with s(2) nr have "real_of_int ?s < real_of_int (2 ^ 50)" by linarith
    then show ?thesis by (simp only: of_int_less_iff)
  qed
  have "real_of_int ?s - 7 / 8 \<le> of_int n * (900719925474099 / 2 ^ 52)"
    unfolding p52 using s(2) nr by linarith
  moreover have "of_int n * (900719925474099 / 2 ^ 52) \<le> real_of_int ?s"
    unfolding p52 using s(1) nr by linarith
  ultimately show "\<lceil>double_round (of_int n * (900719925474099 / 2 ^ 52))\<rceil> = ?s"
    using s(3) s50 by (intro ceiling_double_round)
  let ?c = "\<lceil>real_of_int (6 * n) / 5\<rceil>"
  from n have n6: "0 < 6 * n" by simp
  note c = ceiling_fifths_bounds [OF n6]
  have n6r: "real_of_int (6 * n) = 6 * real_of_int n" by simp
  have c50: "?c < 2 ^ 50"
  proof -
    have "real_of_int (2 ^ 50 :: int) = 1125899906842624" by simp
    with c(2) nr n6r have "real_of_int ?c < real_of_int (2 ^ 50)" by linarith
    then show ?thesis by (simp only: of_int_less_iff)
  qed
  have "real_of_int ?c - 7 / 8 \<le> of_int n * (5404319552844595 / 2 ^ 52)"
    unfolding p52 using c(2) nr n6r by linarith
  moreover have "of_int n * (5404319552844595 / 2 ^ 52) \<le> real_of_int ?c"
    unfolding p52 using c(1) nr n6r by linarith
  ultimately have "\<lceil>double_round (of_int n * (5404319552844595 / 2 ^ 52))\<rceil> = ?c"
    using c(3) c50 by (intro ceiling_double_round)
  moreover have "?c = n + ?s"
  proof -
    have "real_of_int (6 * n) / 5 = real_of_int n / 5 + of_int n" by simp
    then have "?c = \<lceil>real_of_int n / 5 + of_int n\<rceil>" by (simp only:)
    also have "\<dots> = ?s + n" by (rule ceiling_add_of_int)
    finally show ?thesis by simp
  qed
  ultimately show "\<lceil>double_round (of_int n * (5404319552844595 / 2 ^ 52))\<rceil> = n + ?s"
    by simp
qed

lemma double_round_dyadic:
  assumes "0 < k" "k < 2 ^ 53" "m \<le> 1074"
  shows "double_round (of_int k / 2 ^ m) = of_int k / 2 ^ m"
proof -
  have "(2::real) powr (- real m) = 1 / 2 powr real m" by (rule powr_minus_divide)
  also have "\<dots> = 1 / 2 ^ m" by (simp add: powr_realpow)
  finally have p: "(2::real) powr real_of_int (- int m) = 1 / 2 ^ m" by simp
  have eq: "real_of_int k / 2 ^ m = of_int k * 2 powr real_of_int (- int m)" unfolding p by simp
  show ?thesis unfolding eq by (rule double_round_exact) (use assms in simp_all)
qed

lemma forecastItem_fields:
  fixes item :: ParsedItem and h :: real
  defines "x \<equiv> double_round (daily_usage item * h)"
  defines "f \<equiv> forecastItem h item"
  shows "base_demand f = \<lceil>x\<rceil>"
    and "safety_stock f = \<lceil>double_round (x * (900719925474099 / 2 ^ 52))\<rceil>"
    and "forecasted_units f = \<lceil>double_round (x * (5404319552844595 / 2 ^ 52))\<rceil>"
  unfolding x_def f_def forecastItem_def Let_def SAFETY_STOCK_MULTIPLIER_minus_1
  unfolding SAFETY_STOCK_MULTIPLIER_value
  by (simp_all add: ParsedItem.extend_def)

lemma rne_eval: "\<lfloor>x\<rfloor> = f \<Longrightarrow> x - of_int f < 1 / 2 \<Longrightarrow> rne x = f"
  "\<lfloor>x\<rfloor> = f \<Longrightarrow> 1 / 2 < x - of_int f \<Longrightarrow> rne x = f + 1"
  by (simp_all add: rne_def Let_def)

lemma pow2_neg: "(2::real) powr (real_of_int e - 52) = 1 / 2 ^ nat (52 - e)" if "e \<le> 52"
proof -
  have "(2::real) powr (real_of_int e - 52) = 2 powr (- real (nat (52 - e)))"
    using that by simp
  also have "\<dots> = 1 / 2 powr real (nat (52 - e))" by (rule powr_minus_divide)
  also have "\<dots> = 1 / 2 ^ nat (52 - e)" by (simp add: powr_realpow)
  finally show ?thesis .
qed

lemma double_1_1: "double_round 1.1 = 4953959590107546 / 2 ^ 52"
proof -
  have "double_round (11 / 10) = of_int (rne (11 / 10 / 2 powr (of_int 0 - 52))) * 2 powr (of_int 0 - 52)"
    by (rule double_round_binade) simp_all
  also have "2 powr (real_of_int 0 - 52) = 1 / 2 ^ nat (52 - 0)" by (rule pow2_neg) simp
  also have "rne (11 / 10 / (1 / 2 ^ nat (52 - 0))) = 4953959590107545 + 1"
    by (rule rne_eval(2)) (simp_all add: floor_eq_iff)
  finally show ?thesis by simp
qed

lemma double_110: "double_round (4953959590107546 / 2 ^ 52 * 100) = 7740561859543041 / 2 ^ 46"
proof -
  let ?x = "4953959590107546 / 2 ^ 52 * 100 :: real"
  have "double_round ?x = of_int (rne (?x / 2 powr (of_int 6 - 52))) * 2 powr (of_int 6 - 52)"
    by (rule double_round_binade) simp_all
  also have "2 powr (real_of_int 6 - 52) = 1 / 2 ^ nat (52 - 6)" by (rule pow2_neg) simp
  also have "rne (?x / (1 / 2 ^ nat (52 - 6))) = 7740561859543040 + 1"
    by (rule rne_eval(2)) (simp_all add: floor_eq_iff)
  finally show ?thesis by simp
qed

lemma double_22: "double_round (7740561859543041 / 2 ^ 46 * (900719925474099 / 2 ^ 52))
    = 6192449487634431 / 2 ^ 48"
proof -
  let ?x = "7740561859543041 / 2 ^ 46 * (900719925474099 / 2 ^ 52) :: real"
  have "double_round ?x = of_int (rne (?x / 2 powr (of_int 4 - 52))) * 2 powr (of_int 4 - 52)"
    by (rule double_round_binade) simp_all
  also have "2 powr (real_of_int 4 - 52) = 1 / 2 ^ nat (52 - 4)" by (rule pow2_neg) simp
  also have "rne (?x / (1 / 2 ^ nat (52 - 4))) = 6192449487634431"
    by (rule rne_eval(1)) (simp_all add: floor_eq_iff)
  finally show ?thesis by simp
qed

lemma double_132: "double_round (7740561859543041 / 2 ^ 46 * (5404319552844595 / 2 ^ 52)) = 132"
proof -
  let ?x = "7740561859543041 / 2 ^ 46 * (5404319552844595 / 2 ^ 52) :: real"
  have "double_round ?x = of_int (rne (?x / 2 powr (of_int 7 - 52))) * 2 powr (of_int 7 - 52)"
    by (rule double_round_binade) simp_all
  also have "2 powr (real_of_int 7 - 52) = 1 / 2 ^ nat (52 - 7)" by (rule pow2_neg) simp
  also have "rne (?x / (1 / 2 ^ nat (52 - 7))) = 4644337115725824"
    by (rule rne_eval(1)) (simp_all add: floor_eq_iff)
  finally show ?thesis by simp
qed

text \<open>
  C4 (as the code has it). With \<open>x\<close> the double product \<open>daily_usage \<times> horizon\<close>, the demand
  estimator returns one entry per item with \<open>base_demand = ceil x\<close>,
  \<open>safety_stock = ceil (x \<times> 0.19999999999999996)\<close> and \<open>forecasted_units = ceil (x \<times> 1.2)\<close>,
  each product rounded to a double and each ceiling taken from the unrounded \<open>x\<close>; the two
  factors are the doubles \<open>1.20 - 1\<close> and \<open>1.20\<close>. When daily usage and horizon are positive
  whole numbers with a product below \<open>2^49\<close>, then \<open>base_demand\<close> is that product,
  \<open>safety_stock = ceil (base_demand \<times> 0.20)\<close> and
  \<open>forecasted_units = base_demand + safety_stock\<close>; so daily usage 2 over 30 days gives 60,
  12 and 72.
\<close>

theorem forecastDemand_as_computed:
  fixes items :: "ParsedItem list" and h :: real and k :: nat
  defines "x \<equiv> double_round (daily_usage (items ! k) * h)"
  defines "f \<equiv> forecastDemand items h ! k"
  assumes k: "k < length items"
  shows "length (forecastDemand items h) = length items
    \<and> base_demand f = \<lceil>x\<rceil>
    \<and> safety_stock f = \<lceil>double_round (x * (900719925474099 / 2 ^ 52))\<rceil>
    \<and> forecasted_units f = \<lceil>double_round (x * (5404319552844595 / 2 ^ 52))\<rceil>
    \<and> (\<forall>a b. daily_usage (items ! k) = of_int a \<and> h = of_int b \<and> 0 < a \<and> 0 < b \<and> a * b < 2 ^ 49 \<longrightarrow>
          base_demand f = a * b
          \<and> safety_stock f = \<lceil>real_of_int (base_demand f) * 0.20\<rceil>
          \<and> forecasted_units f = base_demand f + safety_stock f)
    \<and> (daily_usage (items ! k) = 2 \<and> h = 30 \<longrightarrow>
          base_demand f = 60 \<and> safety_stock f = 12 \<and> forecasted_units f = 72)"
proof -
  have f: "f = forecastItem h (items ! k)"
    using k by (simp add: f_def forecastDemand_def)
  have b: "base_demand f = \<lceil>x\<rceil>"
    and s: "safety_stock f = \<lceil>double_round (x * (900719925474099 / 2 ^ 52))\<rceil>"
    and u: "forecasted_units f = \<lceil>double_round (x * (5404319552844595 / 2 ^ 52))\<rceil>"
    unfolding f x_def by (rule forecastItem_fields)+
  have len: "length (forecastDemand items h) = length items" by (simp add: forecastDemand_def)
  have whole: "base_demand f = a * b
      \<and> safety_stock f = \<lceil>real_of_int (base_demand f) * 0.20\<rceil>
      \<and> forecasted_units f = base_demand f + safety_stock f"
    if ab: "daily_usage (items ! k) = of_int a \<and> h = of_int b \<and> 0 < a \<and> 0 < b \<and> a * b < 2 ^ 49"
    for a b :: int
  proof -
    from ab have n: "0 < a * b" "a * b < 2 ^ 49" by simp_all
    from n have n53: "a * b < 2 ^ 53" by simp
    have "x = double_round (of_int (a * b))" using ab by (simp add: x_def)
    also have "\<dots> = of_int (a * b)" using n(1) n53 by (rule double_round_int)
    finally have x: "x = of_int (a * b)" .
    have b': "base_demand f = a * b" unfolding b x by (rule ceiling_of_int)
    have fifth: "real_of_int (a * b) * 0.20 = real_of_int (a * b) / 5" by simp
    have s': "safety_stock f = \<lceil>real_of_int (a * b) / 5\<rceil>"
      unfolding s x by (rule whole_demand_ceilings(1) [OF n])
    have u': "forecasted_units f = a * b + \<lceil>real_of_int (a * b) / 5\<rceil>"
      unfolding u x by (rule whole_demand_ceilings(2) [OF n])
    show ?thesis unfolding b' fifth using s' u' by simp
  qed
  have inst: "base_demand f = 60 \<and> safety_stock f = 12 \<and> forecasted_units f = 72"
    if "daily_usage (items ! k) = 2 \<and> h = 30"
  proof -
    from that have "daily_usage (items ! k) = of_int 2 \<and> h = of_int 30 \<and> (0::int) < 2 \<and> (0::int) < 30
        \<and> (2::int) * 30 < 2 ^ 49" by simp
    from whole [OF this] have w: "base_demand f = 60"
      "safety_stock f = \<lceil>real_of_int (base_demand f) * 0.20\<rceil>"
      "forecasted_units f = base_demand f + safety_stock f" by simp_all
    have "safety_stock f = 12" unfolding w(2) w(1) by (simp add: ceiling_eq_iff)
    with w(1,3) show ?thesis by simp
  qed
  show ?thesis using len b s u whole inst by blast
qed

theorem forecastDemand_as_computed_witness:
  "(0::nat) < length [\<lparr>name = ''napkins'', category = ''supplies'', daily_usage = 2,
        unit_label = ''pcs'', context_note = []\<rparr>]
   \<and> base_demand (forecastDemand
        [\<lparr>name = ''napkins'', category = ''supplies'', daily_usage = 2,
           unit_label = ''pcs'', context_note = []\<rparr>] 30 ! 0) = 60
   \<and> safety_stock (forecastDemand
        [\<lparr>name = ''napkins'', category = ''supplies'', daily_usage = 2,
           unit_label = ''pcs'', context_note = []\<rparr>] 30 ! 0) = 12
   \<and> forecasted_units (forecastDemand
        [\<lparr>name = ''napkins'', category = ''supplies'', daily_usage = 2,
           unit_label = ''pcs'', context_note = []\<rparr>] 30 ! 0) = 72"
proof -
  let ?it = "\<lparr>name = ''napkins'', category = ''supplies'', daily_usage = 2,
        unit_label = ''pcs'', context_note = []\<rparr>"
  have k: "(0::nat) < length [?it]" by simp
  have d: "daily_usage ([?it] ! 0) = 2 \<and> (30::real) = 30" by simp
  from forecastDemand_as_computed [OF k, of 30] d
  have "base_demand (forecastDemand [?it] 30 ! 0) = 60
      \<and> safety_stock (forecastDemand [?it] 30 ! 0) = 12
      \<and> forecasted_units (forecastDemand [?it] 30 ! 0) = 72"
    by blast
  with k show ?thesis by blast
qed

text \<open>
  The claim as the specification words it fails where the product is not a whole number.
  Half a unit a day over one day gives base demand 1, safety stock 1 and forecasted units
  1, not 2. With the double \<open>1.1\<close> over 100 days the product is \<open>110.00000000000001\<close>: base
  demand 111, safety stock 22 (not \<open>ceil (111 \<times> 0.20) = 23\<close>) and forecasted units 132 (not
  133).
\<close>

theorem forecastDemand_sum_counterexample:
  "map (\<lambda>f. (base_demand f, safety_stock f, forecasted_units f))
     (forecastDemand
        [\<lparr>name = ''tape'', category = ''supplies'', daily_usage = 1 / 2,
           unit_label = ''rolls'', context_note = []\<rparr>] 1) = [(1, 1, 1)]
   \<and> (1::int) \<noteq> 1 + 1
   \<and> map (\<lambda>f. (base_demand f, safety_stock f, forecasted_units f))
     (forecastDemand
        [\<lparr>name = ''cups'', category = ''supplies'', daily_usage = double_round 1.1,
           unit_label = ''pcs'', context_note = []\<rparr>] 100) = [(111, 22, 132)]
   \<and> (22::int) \<noteq> \<lceil>real_of_int 111 * 0.20\<rceil>
   \<and> (132::int) \<noteq> 111 + 22"
proof -
  let ?tape = "\<lparr>name = ''tape'', category = ''supplies'', daily_usage = 1 / 2,
           unit_label = ''rolls'', context_note = []\<rparr>"
  let ?cups = "\<lparr>name = ''cups'', category = ''supplies'', daily_usage = double_round 1.1,
           unit_label = ''pcs'', context_note = []\<rparr>"
  have half: "double_round (1 / 2) = 1 / 2"
    using double_round_dyadic [of 1 1] by simp
  have h1: "double_round (900719925474099 / 9007199254740992) = 900719925474099 / 9007199254740992"
    using double_round_dyadic [of 900719925474099 53] by simp
  have h2: "double_round (5404319552844595 / 9007199254740992) = 5404319552844595 / 9007199254740992"
    using double_round_dyadic [of 5404319552844595 53] by simp
  have t: "base_demand (forecastItem 1 ?tape) = 1" "safety_stock (forecastItem 1 ?tape) = 1"
    "forecasted_units (forecastItem 1 ?tape) = 1"
    unfolding forecastItem_fields by (simp_all add: half h1 h2 ceiling_eq_iff)
  have du: "daily_usage ?cups * 100 = 4953959590107546 / 2 ^ 52 * 100"
    by (simp add: double_1_1)
  have x: "double_round (daily_usage ?cups * 100) = 7740561859543041 / 2 ^ 46"
    unfolding du by (rule double_110)
  have c: "base_demand (forecastItem 100 ?cups) = 111" "safety_stock (forecastItem 100 ?cups) = 22"
    "forecasted_units (forecastItem 100 ?cups) = 132"
    unfolding forecastItem_fields x double_22 double_132
    by (simp_all add: ceiling_eq_iff)
  have n: "(22::int) \<noteq> \<lceil>real_of_int 111 * 0.20\<rceil>" by (simp add: ceiling_eq_iff)
  show ?thesis using t c n by (simp add: forecastDemand_def)
qed

subsection \<open>Forecaster\<close>









lemma findIndex_from_char:
  "(\<exists>k<length xs. p (xs ! k) \<and> (\<forall>j<k. \<not> p (xs ! j)) \<and> findIndex_from p xs i = i + int k)
   \<or> ((\<forall>k<length xs. \<not> p (xs ! k)) \<and> findIndex_from p xs i = - 1)"
proof (induction xs arbitrary: i)
  case Nil
  then show ?case by simp
next
  case (Cons x xs)
  show ?case
  proof (cases "p x")
    case True
    then have "0 < length (x # xs) \<and> p ((x # xs) ! 0) \<and> (\<forall>j<0. \<not> p ((x # xs) ! j))
        \<and> findIndex_from p (x # xs) i = i + int 0" by simp
    then show ?thesis by blast
  next
    case False
    from Cons.IH [of "i + 1"] show ?thesis
    proof
      assume "\<exists>k<length xs. p (xs ! k) \<and> (\<forall>j<k. \<not> p (xs ! j)) \<and> findIndex_from p xs (i + 1) = i + 1 + int k"
      then obtain k where k: "k < length xs" "p (xs ! k)" "\<forall>j<k. \<not> p (xs ! j)"
        "findIndex_from p xs (i + 1) = i + 1 + int k" by blast
      have "\<forall>j<Suc k. \<not> p ((x # xs) ! j)"
        using False k(3) by (auto simp: less_Suc_eq_0_disj)
      with k False have "Suc k < length (x # xs) \<and> p ((x # xs) ! Suc k) \<and> (\<forall>j<Suc k. \<not> p ((x # xs) ! j))
        \<and> findIndex_from p (x # xs) i = i + int (Suc k)" by simp
      then show ?thesis by blast
    next
      assume "(\<forall>k<length xs. \<not> p (xs ! k)) \<and> findIndex_from p xs (i + 1) = - 1"
      with False have "(\<forall>k<length (x # xs). \<not> p ((x # xs) ! k)) \<and> findIndex_from p (x # xs) i = - 1"
        by (auto simp: less_Suc_eq_0_disj)
      then show ?thesis by blast
    qed
  qed
qed

text \<open>
  C5. \<^verbatim>\<open>days_until_reorder\<close> is defined exactly when the reorder point is positive, the
  trend is negative and some forecast value is at most the reorder point; it is then the
  first such index plus 1, and it is none otherwise.
\<close>

theorem daysUntilReorder_first_crossing:
  "((daysUntilReorder rp tr fc = Some d) =
     (rp > 0 \<and> tr < 0 \<and> (\<exists>k<length fc. fc ! k \<le> rp \<and> (\<forall>j<k. \<not> fc ! j \<le> rp) \<and> d = int k + 1)))
  \<and> ((daysUntilReorder rp tr fc = None) = (\<not> (rp > 0 \<and> tr < 0 \<and> (\<exists>k<length fc. fc ! k \<le> rp))))"
proof -
  let ?p = "\<lambda>f. f \<le> rp"
  let ?first = "\<lambda>k. k < length fc \<and> fc ! k \<le> rp \<and> (\<forall>j<k. \<not> fc ! j \<le> rp)"
  have char: "(\<exists>k. ?first k \<and> findIndex ?p fc = int k)
      \<or> ((\<forall>k<length fc. \<not> fc ! k \<le> rp) \<and> findIndex ?p fc = - 1)"
    using findIndex_from_char [of fc ?p 0] unfolding findIndex_def by simp
  then show ?thesis
  proof
    assume "\<exists>k. ?first k \<and> findIndex ?p fc = int k"
    then obtain k where k: "?first k" and idx: "findIndex ?p fc = int k" by blast
    have uniq: "k' = k" if k': "?first k'" for k'
    proof (rule ccontr)
      assume "k' \<noteq> k"
      then have "k' < k \<or> k < k'" by arith
      then show False using k k' by blast
    qed
    have val: "daysUntilReorder rp tr fc = (if rp > 0 \<and> tr < 0 then Some (int k + 1) else None)"
      by (simp add: daysUntilReorder_def idx Let_def)
    have ex: "(\<exists>k'<length fc. fc ! k' \<le> rp \<and> (\<forall>j<k'. \<not> fc ! j \<le> rp) \<and> d = int k' + 1) = (d = int k + 1)"
      using k uniq by blast
    have ex': "\<exists>k<length fc. fc ! k \<le> rp" using k by blast
    show ?thesis unfolding val ex using ex' by auto
  next
    assume none: "(\<forall>k<length fc. \<not> fc ! k \<le> rp) \<and> findIndex ?p fc = - 1"
    have val: "daysUntilReorder rp tr fc = None"
      by (simp add: daysUntilReorder_def none Let_def)
    have ex: "\<not> (\<exists>k<length fc. fc ! k \<le> rp \<and> (\<forall>j<k. \<not> fc ! j \<le> rp) \<and> d = int k + 1)"
      and ex': "\<not> (\<exists>k<length fc. fc ! k \<le> rp)"
      using none by blast+
    show ?thesis unfolding val using ex ex' by simp
  qed
qed

theorem daysUntilReorder_first_crossing_witness:
  "(0::real) < 5 \<and> (- 2::real) < 0 \<and> (0::nat) < length [9, 7, 5, 3 :: real]
   \<and> daysUntilReorder 5 (- 2) [9, 7, 5, 3] = Some 3
   \<and> daysUntilReorder 5 2 [9, 7, 5, 3] = None
   \<and> daysUntilReorder 0 (- 2) [9, 7, 5, 3] = None
   \<and> daysUntilReorder 2 (- 2) [9, 7, 5, 3] = None"
proof -
  have "\<exists>k<length [9, 7, 5, 3 :: real]. [9, 7, 5, 3 :: real] ! k \<le> 5
      \<and> (\<forall>j<k. \<not> [9, 7, 5, 3 :: real] ! j \<le> 5) \<and> (3::int) = int k + 1"
    by (rule exI [of _ 2]) (simp add: less_Suc_eq numeral_2_eq_2)
  then have "daysUntilReorder 5 (- 2) [9, 7, 5, 3] = Some 3"
    using daysUntilReorder_first_crossing [of 5 "- 2" "[9, 7, 5, 3]" 3] by simp
  then show ?thesis by (simp add: daysUntilReorder_def findIndex_def)
qed

subsection \<open>Search dispatch and merge\<close>

lemma first_occurrences_set: "set (first_occurrences key xs) \<subseteq> set xs"
  by (induction xs) auto

lemma first_occurrences_keys: "key ` set (first_occurrences key xs) = key ` set xs"
proof (induction xs)
  case Nil
  then show ?case by simp
next
  case (Cons x xs)
  have "key ` set (filter (\<lambda>y. key y \<noteq> key x) (first_occurrences key xs))
      = key ` set (first_occurrences key xs) - {key x}" by auto
  then show ?case using Cons.IH by auto
qed

lemma first_occurrences_distinct: "distinct (map key (first_occurrences key xs))"
proof (induction xs)
  case Nil
  then show ?case by simp
next
  case (Cons x xs)
  have "distinct (map key (filter (\<lambda>y. key y \<noteq> key x) (first_occurrences key xs)))"
    using Cons.IH by (simp add: distinct_map_filter)
  then show ?case by auto
qed

lemma first_occurrences_find:
  "r \<in> set (first_occurrences key xs) \<Longrightarrow> find (\<lambda>x. key x = key r) xs = Some r"
proof (induction xs)
  case Nil
  then show ?case by simp
next
  case (Cons x xs)
  then show ?case by (cases "key x = key r") auto
qed

lemma find_filter_implied:
  "(\<And>x. P x \<Longrightarrow> Q x) \<Longrightarrow> find P (filter Q xs) = find P xs"
  by (induction xs) auto

lemma merge_loop_values:
  "map snd (merge_loop acc rs)
     = map snd acc @ filter (\<lambda>r. asin r \<notin> Some ` fst ` set acc)
         (first_occurrences asin (filter (\<lambda>r. truthy (asin r)) rs))"
proof (induction rs arbitrary: acc)
  case Nil
  then show ?case by simp
next
  case (Cons r rs)
  let ?FO = "first_occurrences asin (filter (\<lambda>r. truthy (asin r)) rs)"
  show ?case
  proof (cases "truthy (asin r)")
    case False
    then have "merge_loop acc (r # rs) = merge_loop acc rs"
      by (auto simp: truthy_def split: option.splits)
    then show ?thesis using False Cons.IH by simp
  next
    case True
    then obtain a where a: "asin r = Some a" "a \<noteq> []"
      by (auto simp: truthy_def split: option.splits)
    show ?thesis
    proof (cases "Map_has acc a")
      case True
      then have in_acc: "Some a \<in> Some ` fst ` set acc" by (simp add: Map_has_def)
      have "merge_loop acc (r # rs) = merge_loop acc rs" using a True by simp
      moreover have "filter (\<lambda>y. asin y \<notin> Some ` fst ` set acc) (filter (\<lambda>y. asin y \<noteq> asin r) ?FO)
          = filter (\<lambda>y. asin y \<notin> Some ` fst ` set acc) ?FO"
        unfolding filter_filter using in_acc a by (intro filter_cong) auto
      ultimately show ?thesis using \<open>truthy (asin r)\<close> in_acc a Cons.IH by simp
    next
      case False
      then have not_in: "Some a \<notin> Some ` fst ` set acc" by (auto simp add: Map_has_def)
      have step: "merge_loop acc (r # rs) = merge_loop (acc @ [(a, r)]) rs"
        using a False by (simp add: Map_set_def)
      have "filter (\<lambda>y. asin y \<notin> Some ` fst ` set (acc @ [(a, r)])) ?FO
          = filter (\<lambda>y. asin y \<notin> Some ` fst ` set acc) (filter (\<lambda>y. asin y \<noteq> asin r) ?FO)"
        unfolding filter_filter using a by (intro filter_cong) auto
      then show ?thesis
        unfolding step Cons.IH using \<open>truthy (asin r)\<close> not_in a by simp
    qed
  qed
qed

lemma mergeSearchResults_eq:
  "mergeSearchResults rs = first_occurrences asin (filter (\<lambda>r. truthy (asin r)) rs)"
  by (simp add: mergeSearchResults_def Map_values_def merge_loop_values)

text \<open>
  C6 (as the code has it). The merged pool is the list of first occurrences, by product id,
  of the results that carry a non-empty product id, in the order of the combined list:
  its ids are distinct, they are exactly the non-empty ids of the combined list, and every
  entry is the first result of the combined list with its id (so the first-seen price and
  fields are kept). A result whose id is absent or empty is left out.
\<close>

theorem mergeSearchResults_first_occurrence:
  fixes rs :: "SearchResult list"
  defines "merged \<equiv> mergeSearchResults rs"
  shows "merged = first_occurrences asin (filter (\<lambda>r. truthy (asin r)) rs)
    \<and> distinct (map asin merged)
    \<and> asin ` set merged = {a \<in> asin ` set rs. truthy a}
    \<and> (\<forall>r \<in> set merged. find (\<lambda>x. asin x = asin r) rs = Some r)"
proof -
  let ?ok = "\<lambda>r. truthy (asin r)"
  have eq: "merged = first_occurrences asin (filter ?ok rs)"
    unfolding merged_def by (rule mergeSearchResults_eq)
  have d: "distinct (map asin merged)"
    unfolding eq by (rule first_occurrences_distinct)
  have "asin ` set merged = asin ` set (filter ?ok rs)"
    unfolding eq by (rule first_occurrences_keys)
  also have "\<dots> = {a \<in> asin ` set rs. truthy a}" by (auto simp: image_iff)
  finally have k: "asin ` set merged = {a \<in> asin ` set rs. truthy a}" .
  have f: "find (\<lambda>x. asin x = asin r) rs = Some r" if "r \<in> set merged" for r
  proof -
    from that have r: "r \<in> set (first_occurrences asin (filter ?ok rs))" by (simp only: eq)
    then have "r \<in> set (filter ?ok rs)"
      by (rule subsetD [OF first_occurrences_set])
    then have ok: "truthy (asin r)" by simp
    have "find (\<lambda>x. asin x = asin r) (filter ?ok rs) = find (\<lambda>x. asin x = asin r) rs"
      by (rule find_filter_implied) (simp add: ok)
    with first_occurrences_find [OF r] show ?thesis by simp
  qed
  show ?thesis
  proof (intro conjI ballI)
    show "merged = first_occurrences asin (filter ?ok rs)" by (rule eq)
    show "distinct (map asin merged)" by (rule d)
    show "asin ` set merged = {a \<in> asin ` set rs. truthy a}" by (rule k)
    show "find (\<lambda>x. asin x = asin r) rs = Some r" if "r \<in> set merged" for r
      using that by (rule f)
  qed
qed

theorem mergeSearchResults_first_occurrence_witness:
  "mergeSearchResults
     [\<lparr>asin = Some ''B01'', product_name = ''cable'', price = Some 10,
        result_category = None, link = None\<rparr>,
      \<lparr>asin = Some ''B02'', product_name = ''mouse'', price = Some 20,
        result_category = None, link = None\<rparr>,
      \<lparr>asin = Some ''B01'', product_name = ''cable'', price = Some 99,
        result_category = None, link = None\<rparr>]
   = [\<lparr>asin = Some ''B01'', product_name = ''cable'', price = Some 10,
        result_category = None, link = None\<rparr>,
      \<lparr>asin = Some ''B02'', product_name = ''mouse'', price = Some 20,
        result_category = None, link = None\<rparr>]
   \<and> find (\<lambda>x. asin x = Some ''B01'')
       [\<lparr>asin = Some ''B01'', product_name = ''cable'', price = Some 10,
          result_category = None, link = None\<rparr>,
        \<lparr>asin = Some ''B02'', product_name = ''mouse'', price = Some 20,
          result_category = None, link = None\<rparr>,
        \<lparr>asin = Some ''B01'', product_name = ''cable'', price = Some 99,
          result_category = None, link = None\<rparr>]
     = Some \<lparr>asin = Some ''B01'', product_name = ''cable'', price = Some 10,
          result_category = None, link = None\<rparr>"
proof -
  let ?first = "\<lparr>asin = Some ''B01'', product_name = ''cable'', price = Some (10::real),
        result_category = None, link = None\<rparr>"
  let ?rs = "[?first,
      \<lparr>asin = Some ''B02'', product_name = ''mouse'', price = Some 20,
        result_category = None, link = None\<rparr>,
      \<lparr>asin = Some ''B01'', product_name = ''cable'', price = Some 99,
        result_category = None, link = None\<rparr>]"
  note inst = mergeSearchResults_first_occurrence [of ?rs]
  from inst have "mergeSearchResults ?rs = first_occurrences asin (filter (\<lambda>r. truthy (asin r)) ?rs)"
    by blast
  then have m: "mergeSearchResults ?rs
      = [?first, \<lparr>asin = Some ''B02'', product_name = ''mouse'', price = Some 20,
                   result_category = None, link = None\<rparr>]"
    by (simp add: truthy_def)
  then have "?first \<in> set (mergeSearchResults ?rs)" by simp
  with inst have "find (\<lambda>x. asin x = asin ?first) ?rs = Some ?first" by blast
  then have f: "find (\<lambda>x. asin x = Some ''B01'') ?rs = Some ?first" by simp
  from m f show ?thesis by blast
qed

text \<open>
  The claim as the specification words it fails for a result whose product id is the empty
  string: the combined list has the id, the merged pool has no entry for it.
\<close>

theorem mergeSearchResults_empty_id_counterexample:
  "mergeSearchResults
     [\<lparr>asin = Some [], product_name = ''adapter'', price = Some 5,
        result_category = None, link = None\<rparr>,
      \<lparr>asin = Some ''B01'', product_name = ''cable'', price = Some 10,
        result_category = None, link = None\<rparr>]
   = [\<lparr>asin = Some ''B01'', product_name = ''cable'', price = Some 10,
        result_category = None, link = None\<rparr>]"
  by (simp add: mergeSearchResults_def Map_values_def Map_has_def Map_set_def)

lemma dispatch_step_fields:
  "allResults (dispatch_step d q data) = allResults d @ response_results data"
  "unfoundQueries (dispatch_step d q data) = unfoundQueries d @ (if response_results data = [] then [q] else [])"
  "usedQueries (dispatch_step d q data) = usedQueries d @ (if data = None then [] else [q])"
  "calls (dispatch_step d q data) = calls d @ [q]"
  by (auto simp: dispatch_step_def response_results_def Let_def split: option.splits)

lemma dispatch_loop_fields:
  "allResults (dispatch_loop s i d qs)
     = allResults d @ concat (map (\<lambda>(j, q). response_results (s j q)) (enumerate i qs))"
  "unfoundQueries (dispatch_loop s i d qs)
     = unfoundQueries d @ map snd (filter (\<lambda>(j, q). response_results (s j q) = []) (enumerate i qs))"
  "usedQueries (dispatch_loop s i d qs)
     = usedQueries d @ map snd (filter (\<lambda>(j, q). s j q \<noteq> None) (enumerate i qs))"
  "calls (dispatch_loop s i d qs) = calls d @ qs"
  by (induction qs arbitrary: i d; simp add: dispatch_step_fields)+

lemma enumerate_split:
  "i < length qs \<Longrightarrow>
     enumerate 0 qs = enumerate 0 (take i qs) @ (i, qs ! i) # enumerate (Suc i) (drop (Suc i) qs)"
proof -
  assume i: "i < length qs"
  have "qs = take i qs @ qs ! i # drop (Suc i) qs" using i by (simp add: id_take_nth_drop)
  then have "enumerate 0 qs = enumerate 0 (take i qs @ qs ! i # drop (Suc i) qs)" by simp
  also have "\<dots> = enumerate 0 (take i qs) @ (i, qs ! i) # enumerate (Suc i) (drop (Suc i) qs)"
    using i by (simp add: enumerate_append_eq)
  finally show ?thesis .
qed

text \<open>
  C7 (as the code has it). Take two runs of the search loop that differ only at call \<open>i\<close>:
  in one the call fails, in the other it succeeds with zero results. In both runs every
  planned query is sent to the catalog exactly once, in order (no retry, no abort); query
  \<open>i\<close> is classified unfound; the combined results, the merged pool and the unfound list are
  the same. The list of queries run (the attribution passed to the selector) is not the
  same: it has query \<open>i\<close> after a zero-result call and lacks it after a failed one.
\<close>

theorem dispatch_failure_vs_empty:
  fixes sF sZ :: "nat \<Rightarrow> string \<Rightarrow> SearchResponse option"
  assumes i: "i < length qs"
    and fail: "sF i (qs ! i) = None"
    and zero: "sZ i (qs ! i) \<noteq> None \<and> response_results (sZ i (qs ! i)) = []"
    and same: "\<forall>j q. j \<noteq> i \<longrightarrow> sF j q = sZ j q"
  shows "allResults (dispatch sF qs) = allResults (dispatch sZ qs)
     \<and> mergeSearchResults (allResults (dispatch sF qs)) = mergeSearchResults (allResults (dispatch sZ qs))
     \<and> unfoundQueries (dispatch sF qs) = unfoundQueries (dispatch sZ qs)
     \<and> qs ! i \<in> set (unfoundQueries (dispatch sF qs))
     \<and> calls (dispatch sF qs) = qs \<and> calls (dispatch sZ qs) = qs
     \<and> (\<exists>A B. usedQueries (dispatch sF qs) = A @ B \<and> usedQueries (dispatch sZ qs) = A @ qs ! i # B)"
proof -
  have rr: "response_results (sF j q) = response_results (sZ j q)"
    if "(j, q) \<in> set (enumerate 0 qs)" for j q
  proof (cases "j = i")
    case True
    with that have "q = qs ! i" by (simp add: in_set_enumerate_eq)
    with True fail zero show ?thesis by (simp add: response_results_def)
  next
    case False
    with same show ?thesis by simp
  qed
  have all: "allResults (dispatch sF qs) = allResults (dispatch sZ qs)"
    unfolding dispatch_def dispatch_loop_fields using rr
    by (auto intro!: arg_cong [where f = concat] map_cong)
  have unf: "unfoundQueries (dispatch sF qs) = unfoundQueries (dispatch sZ qs)"
    unfolding dispatch_def dispatch_loop_fields using rr
    by (auto intro!: arg_cong [where f = "map snd"] filter_cong)
  have mem: "(i, qs ! i) \<in> set (enumerate 0 qs)" using i by (simp add: in_set_enumerate_eq)
  have "(i, qs ! i) \<in> set (filter (\<lambda>(j, q). response_results (sF j q) = []) (enumerate 0 qs))"
    using mem fail by (simp add: response_results_def)
  then have "snd (i, qs ! i) \<in> snd ` set (filter (\<lambda>(j, q). response_results (sF j q) = []) (enumerate 0 qs))"
    by (rule imageI)
  then have inunf: "qs ! i \<in> set (unfoundQueries (dispatch sF qs))"
    unfolding dispatch_def dispatch_loop_fields by simp
  have calls: "calls (dispatch sF qs) = qs" "calls (dispatch sZ qs) = qs"
    by (simp_all add: dispatch_def dispatch_loop_fields)
  let ?pre = "enumerate 0 (take i qs)" and ?post = "enumerate (Suc i) (drop (Suc i) qs)"
  let ?PF = "\<lambda>(j, q). sF j q \<noteq> None" and ?PZ = "\<lambda>(j, q). sZ j q \<noteq> None"
  have pre: "filter ?PZ ?pre = filter ?PF ?pre"
    using same by (intro filter_cong) (auto simp: in_set_enumerate_eq)
  have post: "filter ?PZ ?post = filter ?PF ?post"
    using same by (intro filter_cong) (auto simp: in_set_enumerate_eq)
  have usedF: "usedQueries (dispatch sF qs) = map snd (filter ?PF ?pre) @ map snd (filter ?PF ?post)"
    unfolding dispatch_def dispatch_loop_fields enumerate_split [OF i] using fail by simp
  have usedZ: "usedQueries (dispatch sZ qs) = map snd (filter ?PF ?pre) @ qs ! i # map snd (filter ?PF ?post)"
    unfolding dispatch_def dispatch_loop_fields enumerate_split [OF i] using zero pre post by simp
  from usedF usedZ have used: "\<exists>A B. usedQueries (dispatch sF qs) = A @ B
      \<and> usedQueries (dispatch sZ qs) = A @ qs ! i # B" by blast
  show ?thesis using all unf inunf calls used by simp
qed

theorem dispatch_failure_vs_empty_witness:
  "(1::nat) < length [''usb cable'', ''batteries'']
   \<and> usedQueries (dispatch
        (\<lambda>j q. if j = 0 then
             Some \<lparr>results = Some [\<lparr>asin = Some ''B01'', product_name = ''cable'', price = Some 10,
                                     result_category = None, link = None\<rparr>]\<rparr>
           else None) [''usb cable'', ''batteries'']) = [''usb cable'']
   \<and> usedQueries (dispatch
        (\<lambda>j q. if j = 0 then
             Some \<lparr>results = Some [\<lparr>asin = Some ''B01'', product_name = ''cable'', price = Some 10,
                                     result_category = None, link = None\<rparr>]\<rparr>
           else if j = 1 then Some \<lparr>results = Some []\<rparr> else None) [''usb cable'', ''batteries''])
       = [''usb cable'', ''batteries'']
   \<and> unfoundQueries (dispatch
        (\<lambda>j q. if j = 0 then
             Some \<lparr>results = Some [\<lparr>asin = Some ''B01'', product_name = ''cable'', price = Some 10,
                                     result_category = None, link = None\<rparr>]\<rparr>
           else None) [''usb cable'', ''batteries''])
     = unfoundQueries (dispatch
        (\<lambda>j q. if j = 0 then
             Some \<lparr>results = Some [\<lparr>asin = Some ''B01'', product_name = ''cable'', price = Some 10,
                                     result_category = None, link = None\<rparr>]\<rparr>
           else if j = 1 then Some \<lparr>results = Some []\<rparr> else None) [''usb cable'', ''batteries''])"
proof -
  let ?r = "\<lparr>asin = Some ''B01'', product_name = ''cable'', price = Some (10::real),
             result_category = None, link = None\<rparr>"
  let ?sF = "\<lambda>(j::nat) (q::string). if j = 0 then Some \<lparr>results = Some [?r]\<rparr> else None"
  let ?sZ = "\<lambda>(j::nat) (q::string). if j = 0 then Some \<lparr>results = Some [?r]\<rparr>
               else if j = 1 then Some \<lparr>results = Some []\<rparr> else None"
  let ?qs = "[''usb cable'', ''batteries'']"
  have i: "(1::nat) < length ?qs" by simp
  have fail: "?sF 1 (?qs ! 1) = None" by simp
  have zero: "?sZ 1 (?qs ! 1) \<noteq> None \<and> response_results (?sZ 1 (?qs ! 1)) = []"
    by (simp add: response_results_def)
  have same: "\<forall>j q. j \<noteq> 1 \<longrightarrow> ?sF j q = ?sZ j q" by simp
  have "unfoundQueries (dispatch ?sF ?qs) = unfoundQueries (dispatch ?sZ ?qs)"
    using dispatch_failure_vs_empty [OF i fail zero same] by blast
  moreover have "usedQueries (dispatch ?sF ?qs) = [''usb cable'']"
    by (simp add: dispatch_def dispatch_step_def)
  moreover have "usedQueries (dispatch ?sZ ?qs) = [''usb cable'', ''batteries'']"
    by (simp add: dispatch_def dispatch_step_def)
  ultimately show ?thesis using i by blast
qed

text \<open>
  The claim as the specification words it fails on the query attribution: for the one
  query \<open>a\<close>, a failed call leaves the list of queries run empty, a zero-result call puts
  \<open>a\<close> in it.
\<close>

theorem dispatch_attribution_counterexample:
  "dispatch (\<lambda>j q. None) [''a'']
     = \<lparr> allResults = [], usedQueries = [], unfoundQueries = [''a''], calls = [''a''] \<rparr>
   \<and> dispatch (\<lambda>j q. Some \<lparr>results = Some []\<rparr>) [''a'']
     = \<lparr> allResults = [], usedQueries = [''a''], unfoundQueries = [''a''], calls = [''a''] \<rparr>"
  by (simp add: dispatch_def dispatch_step_def)

subsection \<open>Query planner\<close>

lemma dropWhile_id_if: "xs = [] \<or> \<not> P (hd xs) \<Longrightarrow> dropWhile P xs = xs"
  by (cases xs) auto

lemma dropWhile_hd: "dropWhile P xs = [] \<or> \<not> P (hd (dropWhile P xs))"
  using hd_dropWhile by blast

lemma last_dropWhile: "dropWhile P xs \<noteq> [] \<Longrightarrow> last (dropWhile P xs) = last xs"
  by (induction xs) (auto split: if_splits)

lemma trim_trim: "trim (trim s) = trim s"
proof -
  let ?u = "dropWhile is_space s"
  let ?v = "dropWhile is_space (rev ?u)"
  have t: "trim s = rev ?v" by (simp add: trim_def)
  have front: "dropWhile is_space (rev ?v) = rev ?v"
  proof (rule dropWhile_id_if, cases "?v = []")
    case True
    then show "rev ?v = [] \<or> \<not> is_space (hd (rev ?v))" by simp
  next
    case False
    then have "last ?v = last (rev ?u)" by (rule last_dropWhile)
    moreover have u: "?u \<noteq> []"
    proof
      assume "?u = []"
      then have "?v = []" by (simp only: rev.simps dropWhile.simps)
      with False show False by contradiction
    qed
    ultimately have "hd (rev ?v) = hd ?u" using False by (simp add: hd_rev last_rev)
    moreover have "\<not> is_space (hd ?u)" using u dropWhile_hd [of is_space s] by blast
    ultimately show "rev ?v = [] \<or> \<not> is_space (hd (rev ?v))" by simp
  qed
  have tail_ok: "dropWhile is_space ?v = ?v"
    by (rule dropWhile_id_if) (rule dropWhile_hd)
  show ?thesis
    unfolding t unfolding trim_def front rev_rev_ident tail_ok ..
qed

lemma forecastItem_name: "name (forecastItem h i) = name i"
  by (simp add: forecastItem_def ParsedItem.extend_def Let_def)

lemma forecastedItemsOf_names:
  "\<forall>f \<in> set (forecastedItemsOf (callGrokParseItems k a) h). name f \<noteq> []"
  by (auto simp: forecastedItemsOf_def callGrokParseItems_def forecastDemand_def forecastItem_name
      split: option.splits)

lemma callGrokForSearchQueries_trimmed:
  "callGrokForSearchQueries k a = Some qs \<Longrightarrow> \<forall>q \<in> set qs. q \<noteq> [] \<and> trim q = q"
  by (auto simp: callGrokForSearchQueries_def Let_def trim_trim split: if_splits option.splits)

text \<open>
  C8 (as the code has it). For every input the query planner produces at least one query
  and every query is non-empty. On the capability path (the query generation answered with
  at least one non-empty query) the queries are the trimmed, non-empty strings of the
  answer, however many they are; on the fallback paths they are the names of the
  forecasted items, else the prompt as it is, else the default query \<open>product\<close>. The code
  has no upper bound of 5 on any path, and does not trim on the fallback paths.
\<close>

theorem planSearchQueries_paths:
  fixes apiKey :: bool and itemsAnswer :: "ParsedItem list option"
    and queriesAnswer :: "search_queries_json option" and h :: real and prompt :: string
  defines "forecastedItems \<equiv> forecastedItemsOf (callGrokParseItems apiKey itemsAnswer) h"
  defines "grokQueriesResult \<equiv> callGrokForSearchQueries apiKey queriesAnswer"
  defines "qs \<equiv> planSearchQueries grokQueriesResult forecastedItems prompt"
  shows "1 \<le> length qs
    \<and> (\<forall>q \<in> set qs. q \<noteq> [])
    \<and> (\<forall>l. grokQueriesResult = Some l \<and> l \<noteq> [] \<longrightarrow> qs = l \<and> (\<forall>q \<in> set qs. trim q = q))
    \<and> ((grokQueriesResult = None \<or> grokQueriesResult = Some []) \<and> forecastedItems \<noteq> [] \<longrightarrow>
          qs = map name forecastedItems)
    \<and> ((grokQueriesResult = None \<or> grokQueriesResult = Some []) \<and> forecastedItems = [] \<longrightarrow>
          qs = [if prompt \<noteq> [] then prompt else ''product''])"
proof -
  have cap: "qs = l \<and> (\<forall>q \<in> set qs. q \<noteq> [] \<and> trim q = q)"
    if "grokQueriesResult = Some l \<and> l \<noteq> []" for l
  proof -
    from that have "qs = l" by (simp add: qs_def planSearchQueries_def)
    moreover have "\<forall>q \<in> set l. q \<noteq> [] \<and> trim q = q"
      using that callGrokForSearchQueries_trimmed [of apiKey queriesAnswer l]
      by (simp add: grokQueriesResult_def)
    ultimately show ?thesis by simp
  qed
  have fb1: "qs = map name forecastedItems"
    if "(grokQueriesResult = None \<or> grokQueriesResult = Some []) \<and> forecastedItems \<noteq> []"
    using that by (auto simp: qs_def planSearchQueries_def)
  have fb2: "qs = [if prompt \<noteq> [] then prompt else ''product'']"
    if "(grokQueriesResult = None \<or> grokQueriesResult = Some []) \<and> forecastedItems = []"
    using that by (auto simp: qs_def planSearchQueries_def)
  have names: "\<forall>f \<in> set forecastedItems. name f \<noteq> []"
    unfolding forecastedItems_def by (rule forecastedItemsOf_names)
  consider (capability) l where "grokQueriesResult = Some l \<and> l \<noteq> []"
    | (names) "(grokQueriesResult = None \<or> grokQueriesResult = Some []) \<and> forecastedItems \<noteq> []"
    | (prompt) "(grokQueriesResult = None \<or> grokQueriesResult = Some []) \<and> forecastedItems = []"
    by (cases grokQueriesResult) auto
  then have ne: "1 \<le> length qs \<and> (\<forall>q \<in> set qs. q \<noteq> [])"
  proof cases
    case capability
    from cap [OF capability] capability show ?thesis by (cases qs) auto
  next
    case names
    from fb1 [OF names] names \<open>\<forall>f \<in> set forecastedItems. name f \<noteq> []\<close> show ?thesis
      by (cases forecastedItems) auto
  next
    case prompt
    from fb2 [OF prompt] show ?thesis by simp
  qed
  show ?thesis using ne cap fb1 fb2 by blast
qed

theorem planSearchQueries_paths_witness:
  "callGrokForSearchQueries True (Some (QueriesArray [''  usb cable '', '' '', ''batteries'']))
     = Some [''usb cable'', ''batteries'']
   \<and> planSearchQueries
        (callGrokForSearchQueries True (Some (QueriesArray [''  usb cable '', '' '', ''batteries''])))
        (forecastedItemsOf (callGrokParseItems True None) 30) ''restock the office''
     = [''usb cable'', ''batteries'']
   \<and> planSearchQueries (callGrokForSearchQueries False None)
        (forecastedItemsOf (callGrokParseItems False None) 30) [] = [''product'']"
proof -
  have c: "callGrokForSearchQueries True (Some (QueriesArray [''  usb cable '', '' '', ''batteries'']))
      = Some [''usb cable'', ''batteries'']"
    by (simp add: callGrokForSearchQueries_def trim_def is_space_def)
  have f: "forecastedItemsOf (callGrokParseItems False None) 30 = []"
    by (simp add: forecastedItemsOf_def callGrokParseItems_def)
  have n: "callGrokForSearchQueries False None = None"
    by (simp add: callGrokForSearchQueries_def)
  have 1: "planSearchQueries
        (callGrokForSearchQueries True (Some (QueriesArray [''  usb cable '', '' '', ''batteries''])))
        (forecastedItemsOf (callGrokParseItems True None) 30) ''restock the office''
     = [''usb cable'', ''batteries'']"
    using planSearchQueries_paths [of True "Some (QueriesArray [''  usb cable '', '' '', ''batteries''])"
        None 30 "''restock the office''"] c
    by simp
  have 2: "planSearchQueries (callGrokForSearchQueries False None)
        (forecastedItemsOf (callGrokParseItems False None) 30) [] = [''product'']"
    using planSearchQueries_paths [of False None None 30 "[]"] f n by simp
  show ?thesis using c 1 2 by simp
qed

text \<open>
  The claim as the specification words it fails twice: six queries of the capability are
  kept as six, and a prompt with surrounding blanks becomes the query as it is.
\<close>

theorem planSearchQueries_bounds_counterexample:
  "planSearchQueries
     (callGrokForSearchQueries True (Some (QueriesArray [''a'', ''b'', ''c'', ''d'', ''e'', ''f''])))
     (forecastedItemsOf (callGrokParseItems True None) 30) ''six things''
     = [''a'', ''b'', ''c'', ''d'', ''e'', ''f'']
   \<and> planSearchQueries (callGrokForSearchQueries False None)
     (forecastedItemsOf (callGrokParseItems False None) 30) '' usb cable ''
     = ['' usb cable '']
   \<and> trim '' usb cable '' \<noteq> '' usb cable ''"
  by (simp add: planSearchQueries_def callGrokForSearchQueries_def forecastedItemsOf_def
      callGrokParseItems_def trim_def is_space_def)

subsection \<open>Selector\<close>

lemma sum_list_bounded:
  fixes c :: real
  shows "(\<forall>x \<in> set xs. f x \<le> c) \<Longrightarrow> sum_list (map f xs) \<le> real (length xs) * c"
  by (induction xs) (auto simp: algebra_simps)

lemma recommendFromWebShop_cases:
  fixes apiKey :: bool and llm :: ranking and pool :: "SearchResult list" and prompt :: string
    and parsedFunds :: "real option" and chainLog :: bool
    and forecastedItems :: "ForecastedItem list" and queriesRun :: "string list"
  defines "funds \<equiv> number_or parsedFunds 200"
  defines "R \<equiv> recommendFromWebShop apiKey llm pool prompt parsedFunds chainLog forecastedItems queriesRun"
  shows "(R = \<lparr> rec_items = filter (\<lambda>i. unit_price i \<le> funds) (map webshopItem (take 8 pool)),
                rec_source = webshop \<rparr>)
       \<or> (apiKey \<and> pool \<noteq> [] \<and> rec_source R = grok \<and> rec_items R \<noteq> []
           \<and> (\<exists>data. callGrokOnSearchResults apiKey llm pool prompt funds chainLog forecastedItems
                   queriesRun = Some data \<and> grok_items data = Some (rec_items R)))"
  unfolding R_def funds_def recommendFromWebShop_def Let_def
  by (auto split: option.splits)

text \<open>
  Which path is taken, in terms of the ranking capability's answer: the ranked path when a
  key is configured, the pool is not empty and the answer holds a non-empty \<^verbatim>\<open>items\<close>;
  the fallback in every other case.
\<close>

lemma lineTotals_relink: "lineTotals (map (relink pool) its) = lineTotals its"
  by (simp add: lineTotals_def relink_def)

lemma recommendFromWebShop_ranked:
  assumes "apiKey" and "pool \<noteq> []"
    and "llm pool prompt (number_or parsedFunds 200) forecastedItems queriesRun = Some parsed"
    and "grok_items parsed = Some its" and "its \<noteq> []"
  shows "recommendFromWebShop apiKey llm pool prompt parsedFunds chainLog forecastedItems queriesRun
    = \<lparr> rec_items = map (relink pool) its, rec_source = grok \<rparr>"
  using assms by (simp add: recommendFromWebShop_def callGrokOnSearchResults_def Let_def)

lemma recommendFromWebShop_fallback:
  assumes "\<not> (apiKey \<and> pool \<noteq> []
      \<and> (\<exists>parsed its. llm pool prompt (number_or parsedFunds 200) forecastedItems queriesRun = Some parsed
            \<and> grok_items parsed = Some its \<and> its \<noteq> []))"
  shows "recommendFromWebShop apiKey llm pool prompt parsedFunds chainLog forecastedItems queriesRun
    = \<lparr> rec_items = filter (\<lambda>i. unit_price i \<le> number_or parsedFunds 200)
                      (map webshopItem (take 8 pool)),
        rec_source = webshop \<rparr>"
  using assms
  by (auto simp: recommendFromWebShop_def callGrokOnSearchResults_def Let_def
      split: option.splits if_splits)

text \<open>
  C1 (as the code has it). The budget is the parsed funds, 200 when they are \<^verbatim>\<open>NaN\<close> or 0.
  The selector takes the capability-ranked path exactly when a key is configured, the pool
  is not empty and the ranking capability answers with a non-empty item list; it then
  returns that list, each item with the link of the pool entry of the same product id, the
  quantities and unit prices as the capability gave them: their total is not compared with
  the budget. In every other case it takes the deterministic fallback: it takes the first 8
  pool entries and, of these, keeps those whose unit price is at most the budget, each with
  quantity 1. So on the fallback at most 8 items are selected, every line total
  \<open>quantity \<times> unit_price\<close> is at most the budget, and the sum over the selected items is at
  most their number times the budget. The sum is not compared with the budget.
\<close>

theorem recommendFromWebShop_budget:
  fixes apiKey :: bool and llm :: ranking and pool :: "SearchResult list" and prompt :: string
    and parsedFunds :: "real option" and chainLog :: bool
    and forecastedItems :: "ForecastedItem list" and queriesRun :: "string list"
  defines "funds \<equiv> number_or parsedFunds 200"
  defines "R \<equiv> recommendFromWebShop apiKey llm pool prompt parsedFunds chainLog forecastedItems queriesRun"
  shows "(rec_source R = grok \<longleftrightarrow>
            apiKey \<and> pool \<noteq> []
            \<and> (\<exists>parsed its. llm pool prompt funds forecastedItems queriesRun = Some parsed
                  \<and> grok_items parsed = Some its \<and> its \<noteq> []))
       \<and> (\<forall>parsed its.
            apiKey \<and> pool \<noteq> [] \<and> llm pool prompt funds forecastedItems queriesRun = Some parsed
            \<and> grok_items parsed = Some its \<and> its \<noteq> [] \<longrightarrow>
            R = \<lparr> rec_items = map (relink pool) its, rec_source = grok \<rparr>
            \<and> map quantity (rec_items R) = map quantity its
            \<and> map unit_price (rec_items R) = map unit_price its
            \<and> sum_list (lineTotals (rec_items R)) = sum_list (lineTotals its))
       \<and> (rec_source R = webshop \<longrightarrow>
            rec_items R = filter (\<lambda>i. unit_price i \<le> funds) (map webshopItem (take 8 pool))
            \<and> length (rec_items R) \<le> 8
            \<and> (\<forall>i \<in> set (rec_items R). quantity i = 1 \<and> quantity i * unit_price i \<le> funds)
            \<and> sum_list (lineTotals (rec_items R)) \<le> real (length (rec_items R)) * funds)
       \<and> (rec_source R = grok \<longrightarrow>
            apiKey \<and> pool \<noteq> [] \<and> rec_items R \<noteq> []
            \<and> (\<exists>data. callGrokOnSearchResults apiKey llm pool prompt funds chainLog forecastedItems
                    queriesRun = Some data \<and> grok_items data = Some (rec_items R)))"
proof -
  let ?fb = "filter (\<lambda>i. unit_price i \<le> funds) (map webshopItem (take 8 pool))"
  let ?ranked = "apiKey \<and> pool \<noteq> []
      \<and> (\<exists>parsed its. llm pool prompt funds forecastedItems queriesRun = Some parsed
            \<and> grok_items parsed = Some its \<and> its \<noteq> [])"
  have len: "length ?fb \<le> 8"
    by (rule order_trans [OF length_filter_le]) simp
  have each: "\<forall>i \<in> set ?fb. quantity i = 1 \<and> quantity i * unit_price i \<le> funds"
    by (auto simp: webshopItem_def)
  then have "\<forall>i \<in> set ?fb. quantity i * unit_price i \<le> funds" by blast
  then have total: "sum_list (lineTotals ?fb) \<le> real (length ?fb) * funds"
    unfolding lineTotals_def by (rule sum_list_bounded)
  have ranked: "R = \<lparr> rec_items = map (relink pool) its, rec_source = grok \<rparr>"
    if "apiKey" "pool \<noteq> []" "llm pool prompt funds forecastedItems queriesRun = Some parsed"
      "grok_items parsed = Some its" "its \<noteq> []" for parsed its
    unfolding R_def using that unfolding funds_def by (rule recommendFromWebShop_ranked)
  have fallback: "R = \<lparr> rec_items = ?fb, rec_source = webshop \<rparr>" if "\<not> ?ranked"
    unfolding R_def funds_def using that unfolding funds_def by (rule recommendFromWebShop_fallback)
  have path: "rec_source R = grok \<longleftrightarrow> ?ranked"
  proof
    assume g: "rec_source R = grok"
    show ?ranked
    proof (rule ccontr)
      assume "\<not> ?ranked"
      then have "rec_source R = webshop" by (simp add: fallback)
      with g show False by simp
    qed
  next
    assume ?ranked
    then obtain parsed its where "apiKey" "pool \<noteq> []"
      "llm pool prompt funds forecastedItems queriesRun = Some parsed"
      "grok_items parsed = Some its" "its \<noteq> []" by blast
    then have "R = \<lparr> rec_items = map (relink pool) its, rec_source = grok \<rparr>" by (rule ranked)
    then show "rec_source R = grok" by simp
  qed
  have ranked_all: "\<forall>parsed its.
            apiKey \<and> pool \<noteq> [] \<and> llm pool prompt funds forecastedItems queriesRun = Some parsed
            \<and> grok_items parsed = Some its \<and> its \<noteq> [] \<longrightarrow>
            R = \<lparr> rec_items = map (relink pool) its, rec_source = grok \<rparr>
            \<and> map quantity (rec_items R) = map quantity its
            \<and> map unit_price (rec_items R) = map unit_price its
            \<and> sum_list (lineTotals (rec_items R)) = sum_list (lineTotals its)"
  proof (intro allI impI)
    fix parsed its
    assume a: "apiKey \<and> pool \<noteq> [] \<and> llm pool prompt funds forecastedItems queriesRun = Some parsed
            \<and> grok_items parsed = Some its \<and> its \<noteq> []"
    then have "apiKey" "pool \<noteq> []" "llm pool prompt funds forecastedItems queriesRun = Some parsed"
      "grok_items parsed = Some its" "its \<noteq> []" by blast+
    then have r: "R = \<lparr> rec_items = map (relink pool) its, rec_source = grok \<rparr>"
      by (rule ranked)
    then have items: "rec_items R = map (relink pool) its" by simp
    show "R = \<lparr> rec_items = map (relink pool) its, rec_source = grok \<rparr>
            \<and> map quantity (rec_items R) = map quantity its
            \<and> map unit_price (rec_items R) = map unit_price its
            \<and> sum_list (lineTotals (rec_items R)) = sum_list (lineTotals its)"
      unfolding items lineTotals_relink using r by (simp add: relink_def items)
  qed
  have fb: "rec_source R = webshop \<longrightarrow>
            rec_items R = ?fb
            \<and> length (rec_items R) \<le> 8
            \<and> (\<forall>i \<in> set (rec_items R). quantity i = 1 \<and> quantity i * unit_price i \<le> funds)
            \<and> sum_list (lineTotals (rec_items R)) \<le> real (length (rec_items R)) * funds"
  proof
    assume "rec_source R = webshop"
    with path have "\<not> ?ranked" by simp
    then have R: "rec_items R = ?fb" by (simp add: fallback)
    show "rec_items R = ?fb
            \<and> length (rec_items R) \<le> 8
            \<and> (\<forall>i \<in> set (rec_items R). quantity i = 1 \<and> quantity i * unit_price i \<le> funds)
            \<and> sum_list (lineTotals (rec_items R)) \<le> real (length (rec_items R)) * funds"
      unfolding R using len each total by simp
  qed
  have gr: "rec_source R = grok \<longrightarrow>
            apiKey \<and> pool \<noteq> [] \<and> rec_items R \<noteq> []
            \<and> (\<exists>data. callGrokOnSearchResults apiKey llm pool prompt funds chainLog forecastedItems
                    queriesRun = Some data \<and> grok_items data = Some (rec_items R))"
    using recommendFromWebShop_cases [of apiKey llm pool prompt parsedFunds chainLog forecastedItems
        queriesRun]
    unfolding R_def funds_def by auto
  from path ranked_all fb gr show ?thesis by (intro conjI)
qed

theorem recommendFromWebShop_budget_witness:
  "recommendFromWebShop False (\<lambda>pool prompt funds forecasted queries. None)
     [\<lparr>asin = Some ''B01'', product_name = ''cable'', price = Some 10,
        result_category = Some ''cables'', link = Some ''/p/B01''\<rparr>,
      \<lparr>asin = Some ''B02'', product_name = ''monitor'', price = Some 60,
        result_category = None, link = Some ''/p/B02''\<rparr>,
      \<lparr>asin = Some ''B03'', product_name = ''mouse'', price = Some 20,
        result_category = None, link = Some ''/p/B03''\<rparr>]
     ''desk setup'' (Some 50) True [] [''desk'']
   = \<lparr> rec_items =
         [\<lparr>item_asin = Some ''B01'', item_product_name = ''cable'', quantity = 1, unit_price = 10,
            reason = ''Found on WebShop (cables).'', item_link = Some ''/p/B01''\<rparr>,
          \<lparr>item_asin = Some ''B03'', item_product_name = ''mouse'', quantity = 1, unit_price = 20,
            reason = ''Found on WebShop (product).'', item_link = Some ''/p/B03''\<rparr>],
       rec_source = webshop \<rparr>
   \<and> recommendFromWebShop True
       (\<lambda>pool prompt funds forecasted queries.
          Some \<lparr>grok_items = Some [\<lparr>item_asin = Some ''B02'', item_product_name = ''monitor'',
                    quantity = 3, unit_price = 60, reason = ''asked for'', item_link = None\<rparr>]\<rparr>)
     [\<lparr>asin = Some ''B01'', product_name = ''cable'', price = Some 10,
        result_category = Some ''cables'', link = Some ''/p/B01''\<rparr>,
      \<lparr>asin = Some ''B02'', product_name = ''monitor'', price = Some 60,
        result_category = None, link = Some ''/p/B02''\<rparr>,
      \<lparr>asin = Some ''B03'', product_name = ''mouse'', price = Some 20,
        result_category = None, link = Some ''/p/B03''\<rparr>]
     ''desk setup'' (Some 50) True [] [''desk'']
   = \<lparr> rec_items =
         [\<lparr>item_asin = Some ''B02'', item_product_name = ''monitor'', quantity = 3, unit_price = 60,
            reason = ''asked for'', item_link = Some ''/p/B02''\<rparr>],
       rec_source = grok \<rparr>
   \<and> sum_list (lineTotals (rec_items (recommendFromWebShop True
       (\<lambda>pool prompt funds forecasted queries.
          Some \<lparr>grok_items = Some [\<lparr>item_asin = Some ''B02'', item_product_name = ''monitor'',
                    quantity = 3, unit_price = 60, reason = ''asked for'', item_link = None\<rparr>]\<rparr>)
     [\<lparr>asin = Some ''B01'', product_name = ''cable'', price = Some 10,
        result_category = Some ''cables'', link = Some ''/p/B01''\<rparr>,
      \<lparr>asin = Some ''B02'', product_name = ''monitor'', price = Some 60,
        result_category = None, link = Some ''/p/B02''\<rparr>,
      \<lparr>asin = Some ''B03'', product_name = ''mouse'', price = Some 20,
        result_category = None, link = Some ''/p/B03''\<rparr>]
     ''desk setup'' (Some 50) True [] [''desk'']))) = 180
   \<and> rec_source (recommendFromWebShop True (\<lambda>pool prompt funds forecasted queries. None)
     [\<lparr>asin = Some ''B01'', product_name = ''cable'', price = Some 10,
        result_category = Some ''cables'', link = Some ''/p/B01''\<rparr>,
      \<lparr>asin = Some ''B02'', product_name = ''monitor'', price = Some 60,
        result_category = None, link = Some ''/p/B02''\<rparr>,
      \<lparr>asin = Some ''B03'', product_name = ''mouse'', price = Some 20,
        result_category = None, link = Some ''/p/B03''\<rparr>]
     ''desk setup'' (Some 50) True [] [''desk'']) = webshop"
proof -
  define pool where "pool = [\<lparr>asin = Some ''B01'', product_name = ''cable'', price = Some (10::real),
        result_category = Some ''cables'', link = Some ''/p/B01''\<rparr>,
      \<lparr>asin = Some ''B02'', product_name = ''monitor'', price = Some 60,
        result_category = None, link = Some ''/p/B02''\<rparr>,
      \<lparr>asin = Some ''B03'', product_name = ''mouse'', price = Some 20,
        result_category = None, link = Some ''/p/B03''\<rparr>]"
  define none :: ranking where "none = (\<lambda>pool prompt funds forecasted queries. None)"
  define pick where "pick = [\<lparr>item_asin = Some ''B02'', item_product_name = ''monitor'',
                    quantity = (3::real), unit_price = (60::real), reason = ''asked for'',
                    item_link = (None :: string option)\<rparr>]"
  define ranks :: ranking where
    "ranks = (\<lambda>pool prompt funds forecasted queries. Some \<lparr>grok_items = Some pick\<rparr>)"
  define F where "F = recommendFromWebShop False none pool ''desk setup'' (Some 50) True [] [''desk'']"
  define G where "G = recommendFromWebShop True ranks pool ''desk setup'' (Some 50) True [] [''desk'']"
  define H where "H = recommendFromWebShop True none pool ''desk setup'' (Some 50) True [] [''desk'']"
  note f = recommendFromWebShop_budget [of False none pool "''desk setup''" "Some 50" True "[]"
      "[''desk'']", folded F_def]
  note g = recommendFromWebShop_budget [of True ranks pool "''desk setup''" "Some 50" True "[]"
      "[''desk'']", folded G_def]
  note h = recommendFromWebShop_budget [of True none pool "''desk setup''" "Some 50" True "[]"
      "[''desk'']", folded H_def]
  have f_src: "rec_source F = webshop"
    using f [THEN conjunct1] by (cases "rec_source F") simp_all
  then have "rec_items F = filter (\<lambda>i. unit_price i \<le> number_or (Some 50) 200)
      (map webshopItem (take 8 pool))"
    using f by blast
  then have f_items: "rec_items F =
         [\<lparr>item_asin = Some ''B01'', item_product_name = ''cable'', quantity = 1, unit_price = 10,
            reason = ''Found on WebShop (cables).'', item_link = Some ''/p/B01''\<rparr>,
          \<lparr>item_asin = Some ''B03'', item_product_name = ''mouse'', quantity = 1, unit_price = 20,
            reason = ''Found on WebShop (product).'', item_link = Some ''/p/B03''\<rparr>]"
    by (simp add: pool_def number_or_def webshopItem_def truthy_def)
  have "True \<and> pool \<noteq> []
      \<and> ranks pool ''desk setup'' (number_or (Some 50) 200) [] [''desk'']
          = Some \<lparr>grok_items = Some pick\<rparr>
      \<and> grok_items \<lparr>grok_items = Some pick\<rparr> = Some pick \<and> pick \<noteq> []"
    by (simp add: pool_def ranks_def pick_def)
  with g have g_all: "G = \<lparr> rec_items = map (relink pool) pick, rec_source = grok \<rparr>
      \<and> sum_list (lineTotals (rec_items G)) = sum_list (lineTotals pick)"
    by blast
  then have g_val: "G = \<lparr> rec_items =
         [\<lparr>item_asin = Some ''B02'', item_product_name = ''monitor'', quantity = 3, unit_price = 60,
            reason = ''asked for'', item_link = Some ''/p/B02''\<rparr>],
       rec_source = grok \<rparr>"
    by (simp add: relink_def pool_def pick_def truthy_def)
  from g_all have "sum_list (lineTotals (rec_items G)) = sum_list (lineTotals pick)"
    by (rule conjunct2)
  also have "\<dots> = 180" by (simp add: lineTotals_def pick_def)
  finally have g_sum: "sum_list (lineTotals (rec_items G)) = 180" .
  have h_src: "rec_source H = webshop"
    using h [THEN conjunct1] by (cases "rec_source H") (simp_all add: none_def)
  have "F = \<lparr> rec_items =
         [\<lparr>item_asin = Some ''B01'', item_product_name = ''cable'', quantity = 1, unit_price = 10,
            reason = ''Found on WebShop (cables).'', item_link = Some ''/p/B01''\<rparr>,
          \<lparr>item_asin = Some ''B03'', item_product_name = ''mouse'', quantity = 1, unit_price = 20,
            reason = ''Found on WebShop (product).'', item_link = Some ''/p/B03''\<rparr>],
       rec_source = webshop \<rparr>
   \<and> G = \<lparr> rec_items =
         [\<lparr>item_asin = Some ''B02'', item_product_name = ''monitor'', quantity = 3, unit_price = 60,
            reason = ''asked for'', item_link = Some ''/p/B02''\<rparr>],
       rec_source = grok \<rparr>
   \<and> sum_list (lineTotals (rec_items G)) = 180
   \<and> rec_source H = webshop"
    using f_src f_items g_val g_sum h_src by (cases F) simp
  then show ?thesis
    unfolding F_def G_def H_def none_def ranks_def pick_def pool_def .
qed

text \<open>
  The claim as the specification words it fails on the fallback path, at the
  specification's own instance: a pool of 10 items priced 10 and a budget of 50. The
  fallback selects the first 8 items, each with quantity 1, and their total is 80.
\<close>

theorem recommendFromWebShop_over_budget_counterexample:
  "map item_asin (rec_items (recommendFromWebShop False (\<lambda>pool prompt funds forecasted queries. None)
      (map (\<lambda>a. \<lparr>asin = Some a, product_name = a, price = Some 10, result_category = None,
                  link = None\<rparr>)
         [''P0'', ''P1'', ''P2'', ''P3'', ''P4'', ''P5'', ''P6'', ''P7'', ''P8'', ''P9''])
      ''ten things'' (Some 50) True [] []))
     = [Some ''P0'', Some ''P1'', Some ''P2'', Some ''P3'', Some ''P4'', Some ''P5'', Some ''P6'', Some ''P7'']
   \<and> sum_list (lineTotals (rec_items (recommendFromWebShop False (\<lambda>pool prompt funds forecasted queries. None)
      (map (\<lambda>a. \<lparr>asin = Some a, product_name = a, price = Some 10, result_category = None,
                  link = None\<rparr>)
         [''P0'', ''P1'', ''P2'', ''P3'', ''P4'', ''P5'', ''P6'', ''P7'', ''P8'', ''P9''])
      ''ten things'' (Some 50) True [] []))) = 80
   \<and> \<not> (80 \<le> number_or (Some 50) 200)"
  by (simp add: recommendFromWebShop_def number_or_def webshopItem_def lineTotals_def)

subsection \<open>Unfound resolver\<close>














subsection \<open>The recommendation entrypoint\<close>

lemma number_or_default: "number_or None d = d" "number_or (Some 0) d = d"
  by (simp_all add: number_or_def)

lemma recommendFromWebShop_funds:
  "recommendFromWebShop apiKey llm pool prompt parsedFunds chainLog forecastedItems queriesRun
     = recommendFromWebShop apiKey (\<lambda>r p _. llm r p (number_or parsedFunds 200)) pool prompt
         (Some (number_or parsedFunds 200)) chainLog forecastedItems queriesRun"
proof -
  have n: "number_or (Some (number_or parsedFunds 200)) 200 = number_or parsedFunds 200"
    by (simp add: number_or_def split: option.splits)
  show ?thesis
    by (simp add: recommendFromWebShop_def n callGrokOnSearchResults_def Let_def)
qed

lemma recommendFromWebShop_same_funds:
  "number_or a 200 = number_or b 200 \<Longrightarrow>
     recommendFromWebShop apiKey llm pool prompt a chainLog forecastedItems queriesRun
       = recommendFromWebShop apiKey llm pool prompt b chainLog forecastedItems queriesRun"
  by (simp add: recommendFromWebShop_def)

lemma recommend_same_funds:
  "number_or a 200 = number_or b 200 \<Longrightarrow>
     recommend caps isHoliday prompt a h = recommend caps isHoliday prompt b h"
  unfolding recommend_def
  by (simp add: recommendFromWebShop_same_funds [of a b] cong: if_cong)

lemma recommend_no_results:
  assumes "\<not> isHoliday"
    and "allResults (dispatch (callWebShopSearch caps)
      (planSearchQueries (callGrokForSearchQueries (hasKey caps) (searchQueriesAnswer caps))
         (forecastedItemsOf (callGrokParseItems (hasKey caps) (parsedItemsAnswer caps)) h) prompt)) = []"
  shows "unfound_items (recommend caps isHoliday prompt parsedFunds h)
    = Some (buildUnfoundItems (externalSearchLink caps)
        (unfoundQueries (dispatch (callWebShopSearch caps)
          (planSearchQueries (callGrokForSearchQueries (hasKey caps) (searchQueriesAnswer caps))
             (forecastedItemsOf (callGrokParseItems (hasKey caps) (parsedItemsAnswer caps)) h) prompt)))
        (map (runExternalSearch caps) (unfoundQueries (dispatch (callWebShopSearch caps)
          (planSearchQueries (callGrokForSearchQueries (hasKey caps) (searchQueriesAnswer caps))
             (forecastedItemsOf (callGrokParseItems (hasKey caps) (parsedItemsAnswer caps)) h) prompt))))
        (number_or parsedFunds 200))"
  using assms by (simp add: recommend_def Let_def)

lemma recommend_full_chain:
  assumes "\<not> isHoliday"
    and "allResults (dispatch (callWebShopSearch caps)
      (planSearchQueries (callGrokForSearchQueries (hasKey caps) (searchQueriesAnswer caps))
         (forecastedItemsOf (callGrokParseItems (hasKey caps) (parsedItemsAnswer caps)) h) prompt)) \<noteq> []"
  shows "recommendation_items (recommend caps isHoliday prompt parsedFunds h)
      = rec_items (recommendFromWebShop (hasKey caps) (rankingAnswer caps)
          (mergeSearchResults (allResults (dispatch (callWebShopSearch caps)
            (planSearchQueries (callGrokForSearchQueries (hasKey caps) (searchQueriesAnswer caps))
               (forecastedItemsOf (callGrokParseItems (hasKey caps) (parsedItemsAnswer caps)) h) prompt))))
          prompt parsedFunds True
          (forecastedItemsOf (callGrokParseItems (hasKey caps) (parsedItemsAnswer caps)) h)
          (usedQueries (dispatch (callWebShopSearch caps)
            (planSearchQueries (callGrokForSearchQueries (hasKey caps) (searchQueriesAnswer caps))
               (forecastedItemsOf (callGrokParseItems (hasKey caps) (parsedItemsAnswer caps)) h) prompt))))"
    and "response_source (recommend caps isHoliday prompt parsedFunds h)
      = rec_source (recommendFromWebShop (hasKey caps) (rankingAnswer caps)
          (mergeSearchResults (allResults (dispatch (callWebShopSearch caps)
            (planSearchQueries (callGrokForSearchQueries (hasKey caps) (searchQueriesAnswer caps))
               (forecastedItemsOf (callGrokParseItems (hasKey caps) (parsedItemsAnswer caps)) h) prompt))))
          prompt parsedFunds True
          (forecastedItemsOf (callGrokParseItems (hasKey caps) (parsedItemsAnswer caps)) h)
          (usedQueries (dispatch (callWebShopSearch caps)
            (planSearchQueries (callGrokForSearchQueries (hasKey caps) (searchQueriesAnswer caps))
               (forecastedItemsOf (callGrokParseItems (hasKey caps) (parsedItemsAnswer caps)) h) prompt))))"
  using assms by (simp_all add: recommend_def Let_def)

lemma recommendFromWebShop_webshop_items:
  "rec_source (recommendFromWebShop apiKey llm pool prompt parsedFunds chainLog forecastedItems
      queriesRun) = webshop \<Longrightarrow>
   rec_items (recommendFromWebShop apiKey llm pool prompt parsedFunds chainLog forecastedItems
      queriesRun)
     = filter (\<lambda>i. unit_price i \<le> number_or parsedFunds 200) (map webshopItem (take 8 pool))"
  unfolding recommendFromWebShop_def Let_def
  by (auto split: option.splits if_splits)

text \<open>
  C10. When \<^verbatim>\<open>parseFloat(fundsCrypto)\<close> is \<^verbatim>\<open>NaN\<close> or 0 the entrypoint behaves as with a
  budget of 200: the whole response is the response for 200, the selector (and the ranking
  capability it calls) works with 200, and the unfound items are allocated from 200 (from
  \<open>max(0, 200 - total)\<close> after a selection). A negative parsed budget \<open>x\<close> is not replaced: the
  entrypoint hands \<open>x\<close> to the selector, which works with \<open>x\<close> itself (its fallback keeps the
  items with \<open>unit_price \<le> x\<close>, and these are the items of the response), and to the
  allocation of the unfound items when the catalog gave nothing.
\<close>

theorem recommend_default_budget:
  fixes caps :: Capabilities and isHoliday :: bool and prompt :: string and h :: real
    and apiKey :: bool and llm :: ranking and pool :: "SearchResult list" and chainLog :: bool
    and forecastedItems :: "ForecastedItem list" and queriesRun :: "string list"
    and parsedFunds :: "real option" and x :: real
  defines "fc \<equiv> forecastedItemsOf (callGrokParseItems (hasKey caps) (parsedItemsAnswer caps)) h"
  defines "d \<equiv> dispatch (callWebShopSearch caps)
      (planSearchQueries (callGrokForSearchQueries (hasKey caps) (searchQueriesAnswer caps))
         (forecastedItemsOf (callGrokParseItems (hasKey caps) (parsedItemsAnswer caps)) h) prompt)"
  shows "(parsedFunds = None \<or> parsedFunds = Some 0 \<longrightarrow>
            number_or parsedFunds 200 = 200
          \<and> recommend caps isHoliday prompt parsedFunds h = recommend caps isHoliday prompt (Some 200) h
          \<and> recommendFromWebShop apiKey llm pool prompt parsedFunds chainLog forecastedItems queriesRun
              = recommendFromWebShop apiKey (\<lambda>r p _. llm r p 200) pool prompt (Some 200) chainLog
                  forecastedItems queriesRun
          \<and> (\<not> isHoliday \<and> allResults d = [] \<longrightarrow>
                unfound_items (recommend caps isHoliday prompt parsedFunds h)
                  = Some (buildUnfoundItems (externalSearchLink caps) (unfoundQueries d)
                            (map (runExternalSearch caps) (unfoundQueries d)) 200))
          \<and> (\<not> isHoliday \<and> allResults d \<noteq> [] \<longrightarrow>
                recommendation_items (recommend caps isHoliday prompt parsedFunds h)
                  = rec_items (recommendFromWebShop (hasKey caps)
                      (\<lambda>r p _. rankingAnswer caps r p 200) (mergeSearchResults (allResults d))
                      prompt (Some 200) True fc (usedQueries d))))
       \<and> (x < 0 \<longrightarrow>
            number_or (Some x) 200 = x
          \<and> recommendFromWebShop apiKey llm pool prompt (Some x) chainLog forecastedItems queriesRun
              = recommendFromWebShop apiKey (\<lambda>r p _. llm r p x) pool prompt (Some x) chainLog
                  forecastedItems queriesRun
          \<and> (rec_source (recommendFromWebShop apiKey llm pool prompt (Some x) chainLog forecastedItems
                 queriesRun) = webshop \<longrightarrow>
                rec_items (recommendFromWebShop apiKey llm pool prompt (Some x) chainLog forecastedItems
                  queriesRun) = filter (\<lambda>i. unit_price i \<le> x) (map webshopItem (take 8 pool)))
          \<and> (\<not> isHoliday \<and> allResults d \<noteq> [] \<longrightarrow>
                recommendation_items (recommend caps isHoliday prompt (Some x) h)
                  = rec_items (recommendFromWebShop (hasKey caps)
                      (\<lambda>r p _. rankingAnswer caps r p x) (mergeSearchResults (allResults d))
                      prompt (Some x) True fc (usedQueries d))
              \<and> response_source (recommend caps isHoliday prompt (Some x) h)
                  = rec_source (recommendFromWebShop (hasKey caps)
                      (\<lambda>r p _. rankingAnswer caps r p x) (mergeSearchResults (allResults d))
                      prompt (Some x) True fc (usedQueries d))
              \<and> (response_source (recommend caps isHoliday prompt (Some x) h) = webshop \<longrightarrow>
                    recommendation_items (recommend caps isHoliday prompt (Some x) h)
                      = filter (\<lambda>i. unit_price i \<le> x)
                          (map webshopItem (take 8 (mergeSearchResults (allResults d))))))
          \<and> (\<not> isHoliday \<and> allResults d = [] \<longrightarrow>
                unfound_items (recommend caps isHoliday prompt (Some x) h)
                  = Some (buildUnfoundItems (externalSearchLink caps) (unfoundQueries d)
                            (map (runExternalSearch caps) (unfoundQueries d)) x)))"
proof -
  let ?merged = "mergeSearchResults (allResults d)"
  have none: "unfound_items (recommend caps isHoliday prompt pf h)
      = Some (buildUnfoundItems (externalSearchLink caps) (unfoundQueries d)
                (map (runExternalSearch caps) (unfoundQueries d)) (number_or pf 200))"
    if "\<not> isHoliday \<and> allResults d = []" for pf
    using that unfolding d_def by (intro recommend_no_results) simp_all
  have chain: "recommendation_items (recommend caps isHoliday prompt pf h)
      = rec_items (recommendFromWebShop (hasKey caps) (rankingAnswer caps) ?merged prompt pf True fc
          (usedQueries d))"
    "response_source (recommend caps isHoliday prompt pf h)
      = rec_source (recommendFromWebShop (hasKey caps) (rankingAnswer caps) ?merged prompt pf True fc
          (usedQueries d))"
    if "\<not> isHoliday \<and> allResults d \<noteq> []" for pf
    using that unfolding d_def fc_def
    by (simp_all add: recommend_full_chain)
  have funds: "recommendFromWebShop k m p q pf c f u
      = recommendFromWebShop k (\<lambda>r p _. m r p (number_or pf 200)) p q (Some (number_or pf 200)) c f u"
    for k m p q pf c f u
    by (rule recommendFromWebShop_funds)
  have nan: "number_or parsedFunds 200 = 200
          \<and> recommend caps isHoliday prompt parsedFunds h = recommend caps isHoliday prompt (Some 200) h
          \<and> recommendFromWebShop apiKey llm pool prompt parsedFunds chainLog forecastedItems queriesRun
              = recommendFromWebShop apiKey (\<lambda>r p _. llm r p 200) pool prompt (Some 200) chainLog
                  forecastedItems queriesRun
          \<and> (\<not> isHoliday \<and> allResults d = [] \<longrightarrow>
                unfound_items (recommend caps isHoliday prompt parsedFunds h)
                  = Some (buildUnfoundItems (externalSearchLink caps) (unfoundQueries d)
                            (map (runExternalSearch caps) (unfoundQueries d)) 200))
          \<and> (\<not> isHoliday \<and> allResults d \<noteq> [] \<longrightarrow>
                recommendation_items (recommend caps isHoliday prompt parsedFunds h)
                  = rec_items (recommendFromWebShop (hasKey caps)
                      (\<lambda>r p _. rankingAnswer caps r p 200) (mergeSearchResults (allResults d))
                      prompt (Some 200) True fc (usedQueries d)))"
    if p: "parsedFunds = None \<or> parsedFunds = Some 0"
  proof (intro conjI impI)
    from p show n: "number_or parsedFunds 200 = 200" by (auto simp: number_or_def)
    have n': "number_or parsedFunds 200 = number_or (Some 200) 200"
      using n by (simp add: number_or_def)
    show "recommend caps isHoliday prompt parsedFunds h = recommend caps isHoliday prompt (Some 200) h"
      using n' by (rule recommend_same_funds)
    show "recommendFromWebShop apiKey llm pool prompt parsedFunds chainLog forecastedItems queriesRun
        = recommendFromWebShop apiKey (\<lambda>r p _. llm r p 200) pool prompt (Some 200) chainLog
            forecastedItems queriesRun"
      using funds [of apiKey llm pool prompt parsedFunds chainLog forecastedItems queriesRun]
      unfolding n .
    show "unfound_items (recommend caps isHoliday prompt parsedFunds h)
        = Some (buildUnfoundItems (externalSearchLink caps) (unfoundQueries d)
                  (map (runExternalSearch caps) (unfoundQueries d)) 200)"
      if "\<not> isHoliday \<and> allResults d = []"
      using none [OF that, of parsedFunds] unfolding n .
    show "recommendation_items (recommend caps isHoliday prompt parsedFunds h)
        = rec_items (recommendFromWebShop (hasKey caps)
            (\<lambda>r p _. rankingAnswer caps r p 200) (mergeSearchResults (allResults d))
            prompt (Some 200) True fc (usedQueries d))"
      if "\<not> isHoliday \<and> allResults d \<noteq> []"
      using chain(1) [OF that, of parsedFunds]
        funds [of "hasKey caps" "rankingAnswer caps" ?merged prompt parsedFunds True fc "usedQueries d"]
      unfolding n by simp
  qed
  have neg: "number_or (Some x) 200 = x
          \<and> recommendFromWebShop apiKey llm pool prompt (Some x) chainLog forecastedItems queriesRun
              = recommendFromWebShop apiKey (\<lambda>r p _. llm r p x) pool prompt (Some x) chainLog
                  forecastedItems queriesRun
          \<and> (rec_source (recommendFromWebShop apiKey llm pool prompt (Some x) chainLog forecastedItems
                 queriesRun) = webshop \<longrightarrow>
                rec_items (recommendFromWebShop apiKey llm pool prompt (Some x) chainLog forecastedItems
                  queriesRun) = filter (\<lambda>i. unit_price i \<le> x) (map webshopItem (take 8 pool)))
          \<and> (\<not> isHoliday \<and> allResults d \<noteq> [] \<longrightarrow>
                recommendation_items (recommend caps isHoliday prompt (Some x) h)
                  = rec_items (recommendFromWebShop (hasKey caps)
                      (\<lambda>r p _. rankingAnswer caps r p x) (mergeSearchResults (allResults d))
                      prompt (Some x) True fc (usedQueries d))
              \<and> response_source (recommend caps isHoliday prompt (Some x) h)
                  = rec_source (recommendFromWebShop (hasKey caps)
                      (\<lambda>r p _. rankingAnswer caps r p x) (mergeSearchResults (allResults d))
                      prompt (Some x) True fc (usedQueries d))
              \<and> (response_source (recommend caps isHoliday prompt (Some x) h) = webshop \<longrightarrow>
                    recommendation_items (recommend caps isHoliday prompt (Some x) h)
                      = filter (\<lambda>i. unit_price i \<le> x)
                          (map webshopItem (take 8 (mergeSearchResults (allResults d))))))
          \<and> (\<not> isHoliday \<and> allResults d = [] \<longrightarrow>
                unfound_items (recommend caps isHoliday prompt (Some x) h)
                  = Some (buildUnfoundItems (externalSearchLink caps) (unfoundQueries d)
                            (map (runExternalSearch caps) (unfoundQueries d)) x))"
    if x: "x < 0"
  proof -
    from x have n: "number_or (Some x) 200 = x" by (simp add: number_or_def)
    have sel: "recommendFromWebShop k m p q (Some x) c f u
        = recommendFromWebShop k (\<lambda>r p _. m r p x) p q (Some x) c f u" for k m p q c f u
      using funds [of k m p q "Some x" c f u] unfolding n .
    have fb: "rec_source (recommendFromWebShop k m p q (Some x) c f u) = webshop \<Longrightarrow>
        rec_items (recommendFromWebShop k m p q (Some x) c f u)
          = filter (\<lambda>i. unit_price i \<le> x) (map webshopItem (take 8 p))" for k m p q c f u
      using recommendFromWebShop_webshop_items [of k m p q "Some x" c f u] unfolding n .
    have e: "recommendation_items (recommend caps isHoliday prompt (Some x) h)
                  = rec_items (recommendFromWebShop (hasKey caps)
                      (\<lambda>r p _. rankingAnswer caps r p x) (mergeSearchResults (allResults d))
                      prompt (Some x) True fc (usedQueries d))
              \<and> response_source (recommend caps isHoliday prompt (Some x) h)
                  = rec_source (recommendFromWebShop (hasKey caps)
                      (\<lambda>r p _. rankingAnswer caps r p x) (mergeSearchResults (allResults d))
                      prompt (Some x) True fc (usedQueries d))
              \<and> (response_source (recommend caps isHoliday prompt (Some x) h) = webshop \<longrightarrow>
                    recommendation_items (recommend caps isHoliday prompt (Some x) h)
                      = filter (\<lambda>i. unit_price i \<le> x)
                          (map webshopItem (take 8 (mergeSearchResults (allResults d)))))"
      if c: "\<not> isHoliday \<and> allResults d \<noteq> []"
    proof (intro conjI impI)
      show "recommendation_items (recommend caps isHoliday prompt (Some x) h)
                  = rec_items (recommendFromWebShop (hasKey caps)
                      (\<lambda>r p _. rankingAnswer caps r p x) (mergeSearchResults (allResults d))
                      prompt (Some x) True fc (usedQueries d))"
        using chain(1) [OF c, of "Some x"]
          sel [of "hasKey caps" "rankingAnswer caps" ?merged prompt True fc "usedQueries d"]
        by simp
      show "response_source (recommend caps isHoliday prompt (Some x) h)
                  = rec_source (recommendFromWebShop (hasKey caps)
                      (\<lambda>r p _. rankingAnswer caps r p x) (mergeSearchResults (allResults d))
                      prompt (Some x) True fc (usedQueries d))"
        using chain(2) [OF c, of "Some x"]
          sel [of "hasKey caps" "rankingAnswer caps" ?merged prompt True fc "usedQueries d"]
        by simp
      assume "response_source (recommend caps isHoliday prompt (Some x) h) = webshop"
      then have "rec_source (recommendFromWebShop (hasKey caps) (rankingAnswer caps) ?merged prompt
          (Some x) True fc (usedQueries d)) = webshop"
        unfolding chain(2) [OF c, of "Some x"] .
      then show "recommendation_items (recommend caps isHoliday prompt (Some x) h)
          = filter (\<lambda>i. unit_price i \<le> x) (map webshopItem (take 8 ?merged))"
        unfolding chain(1) [OF c, of "Some x"] by (rule fb)
    qed
    have u: "unfound_items (recommend caps isHoliday prompt (Some x) h)
                  = Some (buildUnfoundItems (externalSearchLink caps) (unfoundQueries d)
                            (map (runExternalSearch caps) (unfoundQueries d)) x)"
      if "\<not> isHoliday \<and> allResults d = []"
      using none [OF that, of "Some x"] unfolding n .
    from n sel [of apiKey llm pool prompt chainLog forecastedItems queriesRun]
      fb [of apiKey llm pool prompt chainLog forecastedItems queriesRun] e u
    show ?thesis by blast
  qed
  from nan neg show ?thesis by blast
qed

theorem recommend_default_budget_witness:
  "unfound_items
     (recommend
        \<lparr> hasKey = False, parsedItemsAnswer = None, searchQueriesAnswer = None,
          callWebShopSearch = (\<lambda>i q. None),
          runExternalSearch = (\<lambda>q. [\<lparr>title = Some ''USB cable'', raw_link = Some ''https://shop/usb'',
                                         snippet = Some ''only $40 today'', raw_price = None\<rparr>]),
          rankingAnswer = (\<lambda>pool prompt funds forecasted queries. None),
          externalSearchLink = (\<lambda>q. ''https://www.google.com/search?tbm=shop&q='' @ q) \<rparr>
        False ''usb cable'' None 30)
   = Some [\<lparr>query = ''usb cable'', unfound_product_name = ''USB cable'',
            unfound_link = ''https://shop/usb'',
            search_results = Some [\<lparr>title = Some ''USB cable'', raw_link = Some ''https://shop/usb'',
                                    snippet = Some ''only $40 today'', raw_price = None\<rparr>],
            unfound_unit_price = Some 40, unfound_quantity = 5, line_total = Some 200\<rparr>]
   \<and> (- 5 :: real) < 0
   \<and> recommendFromWebShop False (\<lambda>pool prompt funds forecasted queries. None)
        [\<lparr>asin = Some ''B01'', product_name = ''cable'', price = Some 10,
           result_category = None, link = None\<rparr>,
         \<lparr>asin = Some ''B02'', product_name = ''sticker'', price = None,
           result_category = None, link = None\<rparr>]
        ''usb cable'' (Some (- 5)) True [] []
     = \<lparr> rec_items = [], rec_source = webshop \<rparr>
   \<and> response_source
       (recommend
          \<lparr> hasKey = False, parsedItemsAnswer = None, searchQueriesAnswer = None,
            callWebShopSearch = (\<lambda>i q. Some \<lparr>results = Some
              [\<lparr>asin = Some ''B01'', product_name = ''cable'', price = Some 10,
                 result_category = None, link = None\<rparr>,
               \<lparr>asin = Some ''B02'', product_name = ''sticker'', price = None,
                 result_category = None, link = None\<rparr>]\<rparr>),
            runExternalSearch = (\<lambda>q. []),
            rankingAnswer = (\<lambda>pool prompt funds forecasted queries. None),
            externalSearchLink = (\<lambda>q. ''https://www.google.com/search?tbm=shop&q='' @ q) \<rparr>
          False ''usb cable'' (Some (- 5)) 30) = webshop
   \<and> recommendation_items
       (recommend
          \<lparr> hasKey = False, parsedItemsAnswer = None, searchQueriesAnswer = None,
            callWebShopSearch = (\<lambda>i q. Some \<lparr>results = Some
              [\<lparr>asin = Some ''B01'', product_name = ''cable'', price = Some 10,
                 result_category = None, link = None\<rparr>,
               \<lparr>asin = Some ''B02'', product_name = ''sticker'', price = None,
                 result_category = None, link = None\<rparr>]\<rparr>),
            runExternalSearch = (\<lambda>q. []),
            rankingAnswer = (\<lambda>pool prompt funds forecasted queries. None),
            externalSearchLink = (\<lambda>q. ''https://www.google.com/search?tbm=shop&q='' @ q) \<rparr>
          False ''usb cable'' (Some (- 5)) 30) = []
   \<and> map item_asin (recommendation_items
       (recommend
          \<lparr> hasKey = False, parsedItemsAnswer = None, searchQueriesAnswer = None,
            callWebShopSearch = (\<lambda>i q. Some \<lparr>results = Some
              [\<lparr>asin = Some ''B01'', product_name = ''cable'', price = Some 10,
                 result_category = None, link = None\<rparr>,
               \<lparr>asin = Some ''B02'', product_name = ''sticker'', price = None,
                 result_category = None, link = None\<rparr>]\<rparr>),
            runExternalSearch = (\<lambda>q. []),
            rankingAnswer = (\<lambda>pool prompt funds forecasted queries. None),
            externalSearchLink = (\<lambda>q. ''https://www.google.com/search?tbm=shop&q='' @ q) \<rparr>
          False ''usb cable'' None 30)) = [Some ''B01'', Some ''B02'']"
proof -
  let ?caps = "\<lparr> hasKey = False, parsedItemsAnswer = None, searchQueriesAnswer = None,
          callWebShopSearch = (\<lambda>i q. None),
          runExternalSearch = (\<lambda>q. [\<lparr>title = Some ''USB cable'', raw_link = Some ''https://shop/usb'',
                                         snippet = Some ''only $40 today'', raw_price = None\<rparr>]),
          rankingAnswer = ((\<lambda>pool prompt funds forecasted queries. None) :: ranking),
          externalSearchLink = (\<lambda>q. ''https://www.google.com/search?tbm=shop&q='' @ q) \<rparr>"
  let ?llm = "(\<lambda>pool prompt funds forecasted queries. None) :: ranking"
  let ?pool = "[\<lparr>asin = Some ''B01'', product_name = ''cable'', price = Some (10::real),
           result_category = None, link = None\<rparr>,
         \<lparr>asin = Some ''B02'', product_name = ''sticker'', price = None,
           result_category = None, link = None\<rparr>]"
  let ?shop = "\<lparr> hasKey = False, parsedItemsAnswer = None, searchQueriesAnswer = None,
            callWebShopSearch = (\<lambda>i q. Some \<lparr>results = Some ?pool\<rparr>),
            runExternalSearch = (\<lambda>q. []),
            rankingAnswer = ((\<lambda>pool prompt funds forecasted queries. None) :: ranking),
            externalSearchLink = (\<lambda>q. ''https://www.google.com/search?tbm=shop&q='' @ q) \<rparr>"
  let ?qs = "planSearchQueries (callGrokForSearchQueries (hasKey ?caps) (searchQueriesAnswer ?caps))
         (forecastedItemsOf (callGrokParseItems (hasKey ?caps) (parsedItemsAnswer ?caps)) 30) ''usb cable''"
  let ?qs2 = "planSearchQueries (callGrokForSearchQueries (hasKey ?shop) (searchQueriesAnswer ?shop))
         (forecastedItemsOf (callGrokParseItems (hasKey ?shop) (parsedItemsAnswer ?shop)) 30) ''usb cable''"
  note inst = recommend_default_budget [where parsedFunds = None and caps = ?caps and isHoliday = False
      and prompt = "''usb cable''" and h = 30 and x = "- 5" and apiKey = False and llm = ?llm
      and pool = ?pool and chainLog = True and forecastedItems = "[]" and queriesRun = "[]"]
  note inst2 = recommend_default_budget [where parsedFunds = None and caps = ?shop and isHoliday = False
      and prompt = "''usb cable''" and h = 30 and x = "- 5" and apiKey = False and llm = ?llm
      and pool = ?pool and chainLog = True and forecastedItems = "[]" and queriesRun = "[]"]
  have qs: "?qs = [''usb cable'']"
    by (simp add: planSearchQueries_def callGrokForSearchQueries_def forecastedItemsOf_def
        callGrokParseItems_def)
  have d: "dispatch (callWebShopSearch ?caps) ?qs
      = \<lparr> allResults = [], usedQueries = [], unfoundQueries = [''usb cable''], calls = [''usb cable''] \<rparr>"
    unfolding qs by (simp add: dispatch_def dispatch_step_def)
  let ?d = "dispatch (callWebShopSearch ?caps) ?qs"
  from inst have "\<not> False \<and> allResults ?d = [] \<longrightarrow>
      unfound_items (recommend ?caps False ''usb cable'' None 30)
        = Some (buildUnfoundItems (externalSearchLink ?caps) (unfoundQueries ?d)
                  (map (runExternalSearch ?caps) (unfoundQueries ?d)) 200)"
    by blast
  then have u: "unfound_items (recommend ?caps False ''usb cable'' None 30)
      = Some (buildUnfoundItems (externalSearchLink ?caps) [''usb cable'']
                (map (runExternalSearch ?caps) [''usb cable'']) 200)"
    unfolding d by simp
  have s: "rec_source (recommendFromWebShop False ?llm ?pool ''usb cable'' (Some (- 5)) True [] []) = webshop"
    by (simp add: recommendFromWebShop_def)
  have neg: "(- 5 :: real) < 0" by simp
  from inst neg have "rec_source (recommendFromWebShop False ?llm ?pool ''usb cable'' (Some (- 5)) True [] [])
        = webshop \<longrightarrow>
      rec_items (recommendFromWebShop False ?llm ?pool ''usb cable'' (Some (- 5)) True [] [])
        = filter (\<lambda>i. unit_price i \<le> - 5) (map webshopItem (take 8 ?pool))"
    by blast
  with s have i: "rec_items (recommendFromWebShop False ?llm ?pool ''usb cable'' (Some (- 5)) True [] [])
      = filter (\<lambda>i. unit_price i \<le> - 5) (map webshopItem (take 8 ?pool))"
    by blast
  have r: "recommendFromWebShop False ?llm ?pool ''usb cable'' (Some (- 5)) True [] []
      = \<lparr> rec_items = [], rec_source = webshop \<rparr>"
    using s i by (cases "recommendFromWebShop False ?llm ?pool ''usb cable'' (Some (- 5)) True [] []")
      (simp add: webshopItem_def)
  have c1: "unfound_items (recommend ?caps False ''usb cable'' None 30)
   = Some [\<lparr>query = ''usb cable'', unfound_product_name = ''USB cable'',
            unfound_link = ''https://shop/usb'',
            search_results = Some [\<lparr>title = Some ''USB cable'', raw_link = Some ''https://shop/usb'',
                                    snippet = Some ''only $40 today'', raw_price = None\<rparr>],
            unfound_unit_price = Some 40, unfound_quantity = 5, line_total = Some 200\<rparr>]"
    unfolding u
    by (simp add: buildUnfoundItems_def allocateUnfound_def unfound_loop.simps
      unfound_step_def parsePriceFromText_def parseFloat_decimal_def digits_value_def is_digit_def
      string_or_def truthy_def price_or_def Let_def)
  have qs2: "?qs2 = [''usb cable'']"
    by (simp add: planSearchQueries_def callGrokForSearchQueries_def forecastedItemsOf_def
        callGrokParseItems_def)
  have fc2: "forecastedItemsOf (callGrokParseItems (hasKey ?shop) (parsedItemsAnswer ?shop)) 30 = []"
    by (simp add: forecastedItemsOf_def callGrokParseItems_def)
  have d2: "dispatch (callWebShopSearch ?shop) ?qs2
      = \<lparr> allResults = ?pool, usedQueries = [''usb cable''], unfoundQueries = [],
          calls = [''usb cable''] \<rparr>"
    unfolding qs2 by (simp add: dispatch_def dispatch_step_def)
  have m2: "mergeSearchResults ?pool = ?pool"
    by (simp add: mergeSearchResults_def Map_values_def Map_set_def Map_has_def)
  let ?d2 = "dispatch (callWebShopSearch ?shop) ?qs2"
  have full: "\<not> False \<and> allResults ?d2 \<noteq> []" unfolding d2 by simp
  from inst2 neg full have e: "recommendation_items (recommend ?shop False ''usb cable'' (Some (- 5)) 30)
        = rec_items (recommendFromWebShop (hasKey ?shop) (\<lambda>r p _. rankingAnswer ?shop r p (- 5))
            (mergeSearchResults (allResults ?d2)) ''usb cable'' (Some (- 5)) True
            (forecastedItemsOf (callGrokParseItems (hasKey ?shop) (parsedItemsAnswer ?shop)) 30)
            (usedQueries ?d2))
      \<and> response_source (recommend ?shop False ''usb cable'' (Some (- 5)) 30)
        = rec_source (recommendFromWebShop (hasKey ?shop) (\<lambda>r p _. rankingAnswer ?shop r p (- 5))
            (mergeSearchResults (allResults ?d2)) ''usb cable'' (Some (- 5)) True
            (forecastedItemsOf (callGrokParseItems (hasKey ?shop) (parsedItemsAnswer ?shop)) 30)
            (usedQueries ?d2))
      \<and> (response_source (recommend ?shop False ''usb cable'' (Some (- 5)) 30) = webshop \<longrightarrow>
            recommendation_items (recommend ?shop False ''usb cable'' (Some (- 5)) 30)
              = filter (\<lambda>i. unit_price i \<le> - 5)
                  (map webshopItem (take 8 (mergeSearchResults (allResults ?d2)))))"
    by blast
  have c4: "response_source (recommend ?shop False ''usb cable'' (Some (- 5)) 30) = webshop"
    unfolding e [THEN conjunct2, THEN conjunct1] by (simp add: recommendFromWebShop_def)
  with e have "recommendation_items (recommend ?shop False ''usb cable'' (Some (- 5)) 30)
      = filter (\<lambda>i. unit_price i \<le> - 5)
          (map webshopItem (take 8 (mergeSearchResults (allResults ?d2))))"
    by blast
  then have c5: "recommendation_items (recommend ?shop False ''usb cable'' (Some (- 5)) 30) = []"
    unfolding d2 by (simp add: m2 webshopItem_def)
  from inst2 full have "recommendation_items (recommend ?shop False ''usb cable'' None 30)
        = rec_items (recommendFromWebShop (hasKey ?shop) (\<lambda>r p _. rankingAnswer ?shop r p 200)
            (mergeSearchResults (allResults ?d2)) ''usb cable'' (Some 200) True
            (forecastedItemsOf (callGrokParseItems (hasKey ?shop) (parsedItemsAnswer ?shop)) 30)
            (usedQueries ?d2))"
    by blast
  then have c6: "map item_asin (recommendation_items (recommend ?shop False ''usb cable'' None 30))
      = [Some ''B01'', Some ''B02'']"
    unfolding d2
    by (simp add: m2 recommendFromWebShop_def number_or_def webshopItem_def)
  show ?thesis
    by (intro conjI c1 neg r c4 c5 c6)
qed

subsection \<open>Payment table\<close>

lemma paymentSteps_props:
  "paymentSteps b items = (st, fin) \<Longrightarrow>
     length st = length items \<and> fin = b - sum_list (lineTotals items) \<and>
     (\<forall>i<length items. balanceAfter (st ! i) = b - sum_list (take (Suc i) (lineTotals items))
        \<and> lineTotal (st ! i) = lineTotals items ! i)"
proof (induction items arbitrary: b st fin)
  case Nil
  then show ?case by (simp add: lineTotals_def)
next
  case (Cons item items)
  obtain st' fin' where r: "paymentSteps (b - quantity item * unit_price item) items = (st', fin')"
    by (cases "paymentSteps (b - quantity item * unit_price item) items") auto
  from Cons.prems r have st: "st = \<lparr> step_product_name = item_product_name item,
                   step_quantity = quantity item,
                   step_unit_price = unit_price item,
                   lineTotal = quantity item * unit_price item,
                   balanceAfter = b - quantity item * unit_price item \<rparr> # st'" and fin: "fin = fin'"
    by (simp_all add: Let_def)
  note ih = Cons.IH [OF r]
  show ?case
  proof (intro conjI allI impI)
    show "length st = length (item # items)" using ih st by simp
    show "fin = b - sum_list (lineTotals (item # items))" using ih fin by (simp add: lineTotals_def)
  next
    fix i assume "i < length (item # items)"
    then show "balanceAfter (st ! i) = b - sum_list (take (Suc i) (lineTotals (item # items)))"
      using ih st by (cases i) (simp_all add: lineTotals_def)
  next
    fix i assume "i < length (item # items)"
    then show "lineTotal (st ! i) = lineTotals (item # items) ! i"
      using ih st by (cases i) (simp_all add: lineTotals_def)
  qed
qed

text \<open>
  C9. The ledger's row 0 is the starting balance; the table has one step per approved item;
  the balance after step \<open>i\<close> (counted from 1) is the starting balance minus the line totals
  \<open>quantity \<times> unit_price\<close> of the first \<open>i\<close> items; the total spent is the starting balance
  minus the final balance, which is the sum of all line totals. The ledger is a value
  computed from the two inputs alone: the only variable the source assigns is its own
  \<^verbatim>\<open>runningBalance\<close>.
\<close>

theorem paymentLedger_replay:
  fixes start :: real and items :: "SelectedItem list"
  defines "L \<equiv> paymentLedger start items"
  shows "startBalance L = start
    \<and> length (steps L) = length items
    \<and> (\<forall>i. 1 \<le> i \<and> i \<le> length items \<longrightarrow>
          balanceAfter (steps L ! (i - 1)) = start - sum_list (take i (lineTotals items))
          \<and> lineTotal (steps L ! (i - 1)) = quantity (items ! (i - 1)) * unit_price (items ! (i - 1)))
    \<and> totalSpent L = startBalance L - finalBalance L
    \<and> totalSpent L = sum_list (lineTotals items)"
proof -
  obtain st fin where r: "paymentSteps start items = (st, fin)"
    by (cases "paymentSteps start items") auto
  have L: "L = \<lparr> startBalance = start, steps = st, totalSpent = start - fin, finalBalance = fin \<rparr>"
    by (simp add: L_def paymentLedger_def r)
  note p = paymentSteps_props [OF r]
  have step: "balanceAfter (st ! (i - 1)) = start - sum_list (take i (lineTotals items))
      \<and> lineTotal (st ! (i - 1)) = quantity (items ! (i - 1)) * unit_price (items ! (i - 1))"
    if "1 \<le> i \<and> i \<le> length items" for i
  proof -
    from that have i: "i - 1 < length items" and s: "Suc (i - 1) = i" by arith+
    from p i have A: "balanceAfter (st ! (i - 1)) = start - sum_list (take (Suc (i - 1)) (lineTotals items))"
      and B: "lineTotal (st ! (i - 1)) = lineTotals items ! (i - 1)" by blast+
    have B': "lineTotals items ! (i - 1) = quantity (items ! (i - 1)) * unit_price (items ! (i - 1))"
      using i by (simp add: lineTotals_def)
    show ?thesis using A B B' unfolding s by simp
  qed
  show ?thesis using p step by (simp add: L)
qed

theorem paymentLedger_replay_witness:
  "(1::nat) \<le> 2 \<and> (2::nat) \<le> length
     [\<lparr>item_asin = Some ''B01'', item_product_name = ''cable'', quantity = 2, unit_price = 10,
        reason = [], item_link = None\<rparr>,
      \<lparr>item_asin = Some ''B02'', item_product_name = ''mouse'', quantity = 1, unit_price = 25,
        reason = [], item_link = None\<rparr>]
   \<and> balanceAfter (steps (paymentLedger 100
     [\<lparr>item_asin = Some ''B01'', item_product_name = ''cable'', quantity = 2, unit_price = 10,
        reason = [], item_link = None\<rparr>,
      \<lparr>item_asin = Some ''B02'', item_product_name = ''mouse'', quantity = 1, unit_price = 25,
        reason = [], item_link = None\<rparr>]) ! (2 - 1)) = 55
   \<and> paymentLedger 100
     [\<lparr>item_asin = Some ''B01'', item_product_name = ''cable'', quantity = 2, unit_price = 10,
        reason = [], item_link = None\<rparr>,
      \<lparr>item_asin = Some ''B02'', item_product_name = ''mouse'', quantity = 1, unit_price = 25,
        reason = [], item_link = None\<rparr>]
   = \<lparr>startBalance = 100,
      steps = [\<lparr>step_product_name = ''cable'', step_quantity = 2, step_unit_price = 10,
                 lineTotal = 20, balanceAfter = 80\<rparr>,
               \<lparr>step_product_name = ''mouse'', step_quantity = 1, step_unit_price = 25,
                 lineTotal = 25, balanceAfter = 55\<rparr>],
      totalSpent = 45, finalBalance = 55\<rparr>"
proof -
  let ?items = "[\<lparr>item_asin = Some ''B01'', item_product_name = ''cable'', quantity = 2, unit_price = 10,
        reason = [], item_link = None\<rparr>,
      \<lparr>item_asin = Some ''B02'', item_product_name = ''mouse'', quantity = 1, unit_price = 25,
        reason = [], item_link = None\<rparr>]"
  have i: "(1::nat) \<le> 2 \<and> (2::nat) \<le> length ?items" by simp
  from paymentLedger_replay [of 100 ?items] i
  have "balanceAfter (steps (paymentLedger 100 ?items) ! (2 - 1))
      = 100 - sum_list (take 2 (lineTotals ?items))" by blast
  then have b: "balanceAfter (steps (paymentLedger 100 ?items) ! (2 - 1)) = 55"
    by (simp add: lineTotals_def)
  have l: "paymentLedger 100 ?items
      = \<lparr>startBalance = 100,
      steps = [\<lparr>step_product_name = ''cable'', step_quantity = 2, step_unit_price = 10,
                 lineTotal = 20, balanceAfter = 80\<rparr>,
               \<lparr>step_product_name = ''mouse'', step_quantity = 1, step_unit_price = 25,
                 lineTotal = 25, balanceAfter = 55\<rparr>],
      totalSpent = 45, finalBalance = 55\<rparr>"
    by (simp add: paymentLedger_def Let_def)
  from i b l show ?thesis by blast
qed

end
